theory Spec2Isabelle
  imports Main "HOL-Library.Multiset"
begin

section \<open>The platform: a directory tree behind capabilities\<close>

text \<open>
  The application works on the browser's directory-access capability
  (\<^verbatim>\<open>FileSystemDirectoryHandle\<close>, \<^verbatim>\<open>FileSystemFileHandle\<close>), declared in
  \<^verbatim>\<open>src/context/FileSystemContext.tsx\<close>, lines 9 to 38. The disk is a tree of named
  entries; a directory lists its entries in the order the platform enumerates them. A handle
  is the kind of an entry and its path of names from the top of the disk, and two handles are
  the same entry when they are equal. The operations behave as the File System standard
  describes them. Asynchronous calls are run to completion one after the other. Console
  output is not part of the model.
\<close>

datatype kind = File | Directory

datatype fs_error =
  NotFoundError | TypeMismatchError | InvalidModificationError | TypeError | SameEntryError

datatype fsentry = FileEntry string string | DirEntry string "fsentry list"

datatype handle = Handle (hkind: kind) (hpath: "string list")

fun entryName :: "fsentry \<Rightarrow> string" where
  "entryName (FileEntry n c) = n"
| "entryName (DirEntry n sub) = n"

fun findEntry :: "string \<Rightarrow> fsentry list \<Rightarrow> fsentry option" where
  "findEntry n [] = None"
| "findEntry n (e # es) = (if entryName e = n then Some e else findEntry n es)"

fun replaceEntry :: "string \<Rightarrow> fsentry \<Rightarrow> fsentry list \<Rightarrow> fsentry list" where
  "replaceEntry n e' [] = []"
| "replaceEntry n e' (e # es) = (if entryName e = n then e' # es else e # replaceEntry n e' es)"

fun dropEntry :: "string \<Rightarrow> fsentry list \<Rightarrow> fsentry list" where
  "dropEntry n [] = []"
| "dropEntry n (e # es) = (if entryName e = n then es else e # dropEntry n es)"

text \<open>The entries of the directory a path of names leads to, when every name on the path is a
  directory.\<close>

fun resolveDir :: "fsentry list \<Rightarrow> string list \<Rightarrow> fsentry list option" where
  "resolveDir es [] = Some es"
| "resolveDir es (n # p) =
     (case findEntry n es of
        Some (DirEntry m sub) \<Rightarrow> resolveDir sub p
      | _ \<Rightarrow> None)"

text \<open>Running an operation on the entries of the directory at a path, and putting the result
  back in place.\<close>

fun modifyDir ::
  "string list \<Rightarrow> (fsentry list \<Rightarrow> fs_error + fsentry list) \<Rightarrow> fsentry list
     \<Rightarrow> fs_error + fsentry list" where
  "modifyDir [] f es = f es"
| "modifyDir (n # p) f es =
     (case findEntry n es of
        Some (DirEntry m sub) \<Rightarrow>
          (case modifyDir p f sub of
             Inl err \<Rightarrow> Inl err
           | Inr sub' \<Rightarrow> Inr (replaceEntry n (DirEntry m sub') es))
      | _ \<Rightarrow> Inl NotFoundError)"

text \<open>A name the platform accepts for an entry: not empty, not \<^verbatim>\<open>.\<close> or \<^verbatim>\<open>..\<close>, and
  without the path separator.\<close>

definition validName :: "string \<Rightarrow> bool" where
  "validName n = (n \<noteq> [] \<and> n \<noteq> ''.'' \<and> n \<noteq> ''..'' \<and> CHR ''/'' \<notin> set n)"

text \<open>\<^verbatim>\<open>getFileHandle(name, { create: true })\<close>: open or create. A name that is not valid is
  a type error, and an entry of that name which is a directory is a type mismatch. Where the
  enumeration lists a new entry is the platform's choice: \<open>slot\<close> is that position.\<close>

definition getFileHandleIn :: "nat \<Rightarrow> string \<Rightarrow> fsentry list \<Rightarrow> fs_error + fsentry list" where
  "getFileHandleIn slot name es =
     (case findEntry name es of
        None \<Rightarrow> Inr (take slot es @ FileEntry name [] # drop slot es)
      | Some (FileEntry n c) \<Rightarrow> Inr es
      | Some (DirEntry n sub) \<Rightarrow> Inl TypeMismatchError)"

definition getFileHandle ::
  "fsentry list \<Rightarrow> nat \<Rightarrow> handle \<Rightarrow> string \<Rightarrow> fs_error + fsentry list" where
  "getFileHandle d slot parentHandle name =
     (if \<not> validName name then Inl TypeError
      else modifyDir (hpath parentHandle) (getFileHandleIn slot name) d)"

text \<open>\<^verbatim>\<open>getDirectoryHandle(name, { create: true })\<close>, likewise.\<close>

definition getDirectoryHandleIn ::
  "nat \<Rightarrow> string \<Rightarrow> fsentry list \<Rightarrow> fs_error + fsentry list" where
  "getDirectoryHandleIn slot name es =
     (case findEntry name es of
        None \<Rightarrow> Inr (take slot es @ DirEntry name [] # drop slot es)
      | Some (DirEntry n sub) \<Rightarrow> Inr es
      | Some (FileEntry n c) \<Rightarrow> Inl TypeMismatchError)"

definition getDirectoryHandle ::
  "fsentry list \<Rightarrow> nat \<Rightarrow> handle \<Rightarrow> string \<Rightarrow> fs_error + fsentry list" where
  "getDirectoryHandle d slot parentHandle name =
     (if \<not> validName name then Inl TypeError
      else modifyDir (hpath parentHandle) (getDirectoryHandleIn slot name) d)"

text \<open>\<^verbatim>\<open>removeEntry(name, { recursive })\<close>: a missing entry is not found; a directory that
  still has entries is removed only when \<open>recursive\<close> is set, and is an invalid modification
  otherwise.\<close>

definition removeEntryIn :: "string \<Rightarrow> bool \<Rightarrow> fsentry list \<Rightarrow> fs_error + fsentry list" where
  "removeEntryIn name recursive es =
     (case findEntry name es of
        None \<Rightarrow> Inl NotFoundError
      | Some (FileEntry n c) \<Rightarrow> Inr (dropEntry name es)
      | Some (DirEntry n sub) \<Rightarrow>
          (if sub \<noteq> [] \<and> \<not> recursive then Inl InvalidModificationError
           else Inr (dropEntry name es)))"

definition removeEntry ::
  "fsentry list \<Rightarrow> handle \<Rightarrow> string \<Rightarrow> bool \<Rightarrow> fs_error + fsentry list" where
  "removeEntry d parentHandle name recursive =
     modifyDir (hpath parentHandle) (removeEntryIn name recursive) d"


text \<open>\<^verbatim>\<open>getFile()\<close> then \<^verbatim>\<open>text()\<close> (lines 217 to 220), and \<^verbatim>\<open>createWritable()\<close>,
  \<^verbatim>\<open>write\<close>, \<^verbatim>\<open>close\<close> (lines 222 to 226), which replaces the content.\<close>

definition readFileContent :: "fsentry list \<Rightarrow> handle \<Rightarrow> fs_error + string" where
  "readFileContent d h =
     (case hpath h of
        [] \<Rightarrow> Inl NotFoundError
      | n # p \<Rightarrow>
          (case resolveDir d (butlast (n # p)) of
             None \<Rightarrow> Inl NotFoundError
           | Some es \<Rightarrow>
               (case findEntry (last (n # p)) es of
                  Some (FileEntry m c) \<Rightarrow> Inr c
                | Some (DirEntry m sub) \<Rightarrow> Inl TypeMismatchError
                | None \<Rightarrow> Inl NotFoundError)))"

definition writeIn :: "string \<Rightarrow> string \<Rightarrow> fsentry list \<Rightarrow> fs_error + fsentry list" where
  "writeIn name content es =
     (case findEntry name es of
        Some (FileEntry m c) \<Rightarrow> Inr (replaceEntry name (FileEntry m content) es)
      | Some (DirEntry m sub) \<Rightarrow> Inl TypeMismatchError
      | None \<Rightarrow> Inl NotFoundError)"

definition saveFileContent :: "fsentry list \<Rightarrow> handle \<Rightarrow> string \<Rightarrow> fs_error + fsentry list" where
  "saveFileContent d h content =
     (case hpath h of
        [] \<Rightarrow> Inl NotFoundError
      | n # p \<Rightarrow> modifyDir (butlast (n # p)) (writeIn (last (n # p)) content) d)"

section \<open>The directory scanner\<close>

datatype FileNode =
  FileNode (node_id: string) (node_name: string) (node_kind: kind) (node_handle: handle)
    (children: "FileNode list option")

definition startsWith :: "string \<Rightarrow> string \<Rightarrow> bool" where
  "startsWith s p = (take (length p) s = p)"

definition endsWith :: "string \<Rightarrow> string \<Rightarrow> bool" where
  "endsWith s p = (length p \<le> length s \<and> drop (length s - length p) s = p)"

text \<open>The comparator of both sorts (lines 109 to 112 and 120 to 123). \<open>lc a b\<close> is
  \<^verbatim>\<open>a.localeCompare(b)\<close>, the collation of the platform's locale: negative, zero or
  positive.\<close>

definition compareNodes :: "(string \<Rightarrow> string \<Rightarrow> int) \<Rightarrow> FileNode \<Rightarrow> FileNode \<Rightarrow> int" where
  "compareNodes lc a b =
     (if node_kind a = node_kind b then lc (node_name a) (node_name b)
      else if node_kind a = Directory then - 1 else 1)"

text \<open>\<^verbatim>\<open>Array.prototype.sort\<close> with a comparator is a stable sort: an element goes before the
  first one it does not compare greater than.\<close>

fun insertNode :: "(FileNode \<Rightarrow> FileNode \<Rightarrow> int) \<Rightarrow> FileNode \<Rightarrow> FileNode list \<Rightarrow> FileNode list" where
  "insertNode c x [] = [x]"
| "insertNode c x (y # ys) = (if c x y \<le> 0 then x # y # ys else y # insertNode c x ys)"

definition sortNodes :: "(string \<Rightarrow> string \<Rightarrow> int) \<Rightarrow> FileNode list \<Rightarrow> FileNode list" where
  "sortNodes lc xs = foldr (insertNode (compareNodes lc)) xs []"

definition nodePath :: "string \<Rightarrow> string \<Rightarrow> string" where
  "nodePath path name = (if path \<noteq> [] then path @ ''/'' @ name else name)"

text \<open>The loop of \<^verbatim>\<open>scanDirectory\<close> (lines 86 to 117) over the enumerated entries, in the
  order of the pushes. A directory's children are the result of the recursive call (itself
  sorted, line 120), sorted again by the caller (line 109).\<close>

function scanLoop ::
  "(string \<Rightarrow> string \<Rightarrow> int) \<Rightarrow> string list \<Rightarrow> string \<Rightarrow> fsentry list \<Rightarrow> FileNode list" where
  "scanLoop lc hp path [] = []"
| "scanLoop lc hp path (FileEntry name c # es) =
     (if \<not> endsWith name ''.excalidraw'' then scanLoop lc hp path es
      else if startsWith name ''.'' then scanLoop lc hp path es
      else FileNode (nodePath path name) name File (Handle File (hp @ [name])) None
             # scanLoop lc hp path es)"
| "scanLoop lc hp path (DirEntry name sub # es) =
     (if startsWith name ''.'' then scanLoop lc hp path es
      else FileNode (nodePath path name) name Directory (Handle Directory (hp @ [name]))
             (Some (sortNodes lc (sortNodes lc
                (scanLoop lc (hp @ [name]) (nodePath path name) sub))))
             # scanLoop lc hp path es)"
  by pat_completeness auto
termination
  by (relation "measure (\<lambda>(lc, hp, path, es). size_list size es)") auto

definition scanEntries ::
  "(string \<Rightarrow> string \<Rightarrow> int) \<Rightarrow> string list \<Rightarrow> string \<Rightarrow> fsentry list \<Rightarrow> FileNode list" where
  "scanEntries lc hp path es = sortNodes lc (scanLoop lc hp path es)"

text \<open>\<^verbatim>\<open>scanDirectory(dirHandle, path)\<close>: enumerating a directory that is gone fails.\<close>

definition scanDirectory ::
  "(string \<Rightarrow> string \<Rightarrow> int) \<Rightarrow> fsentry list \<Rightarrow> handle \<Rightarrow> string \<Rightarrow> fs_error + FileNode list" where
  "scanDirectory lc d dirHandle path =
     (case resolveDir d (hpath dirHandle) of
        None \<Rightarrow> Inl NotFoundError
      | Some es \<Rightarrow> Inr (scanEntries lc (hpath dirHandle) path es))"

section \<open>The file-system context\<close>

text \<open>The state of \<^verbatim>\<open>FileSystemProvider\<close> (lines 79 to 81), together with the disk it works
  on. An operation returns the error it throws, if any, and the state it leaves behind.\<close>

record state =
  disk :: "fsentry list"
  rootHandle :: "handle option"
  fileTree :: "FileNode list"
  selectedFile :: "FileNode option"

definition selectFile :: "FileNode option \<Rightarrow> state \<Rightarrow> state" where
  "selectFile f s = s\<lparr>selectedFile := f\<rparr>"

definition refreshDirectory :: "(string \<Rightarrow> string \<Rightarrow> int) \<Rightarrow> state \<Rightarrow> fs_error option \<times> state" where
  "refreshDirectory lc s =
     (case rootHandle s of
        None \<Rightarrow> (None, s)
      | Some h \<Rightarrow>
          (case scanDirectory lc (disk s) h [] of
             Inl err \<Rightarrow> (Some err, s)
           | Inr tree \<Rightarrow> (None, s\<lparr>fileTree := tree\<rparr>)))"

text \<open>The local \<^verbatim>\<open>fileName\<close> of \<^verbatim>\<open>createFile\<close> (line 184).\<close>

definition fileName :: "string \<Rightarrow> string" where
  "fileName name = (if endsWith name ''.excalidraw'' then name else name @ ''.excalidraw'')"

definition createFile ::
  "(string \<Rightarrow> string \<Rightarrow> int) \<Rightarrow> nat \<Rightarrow> handle \<Rightarrow> string \<Rightarrow> state
     \<Rightarrow> fs_error option \<times> state" where
  "createFile lc slot parentHandle name s =
     (case getFileHandle (disk s) slot parentHandle (fileName name) of
        Inl err \<Rightarrow> (Some err, s)
      | Inr d' \<Rightarrow> refreshDirectory lc (s\<lparr>disk := d'\<rparr>))"

definition createFolder ::
  "(string \<Rightarrow> string \<Rightarrow> int) \<Rightarrow> nat \<Rightarrow> handle \<Rightarrow> string \<Rightarrow> state
     \<Rightarrow> fs_error option \<times> state" where
  "createFolder lc slot parentHandle name s =
     (case getDirectoryHandle (disk s) slot parentHandle name of
        Inl err \<Rightarrow> (Some err, s)
      | Inr d' \<Rightarrow> refreshDirectory lc (s\<lparr>disk := d'\<rparr>))"

text \<open>\<^verbatim>\<open>deleteEntry\<close> (lines 203 to 215) calls \<^verbatim>\<open>removeEntry(name)\<close> with no options, so
  \<open>recursive\<close> is false.\<close>

definition deleteEntry ::
  "(string \<Rightarrow> string \<Rightarrow> int) \<Rightarrow> handle \<Rightarrow> string \<Rightarrow> state \<Rightarrow> fs_error option \<times> state" where
  "deleteEntry lc parentHandle name s =
     (case removeEntry (disk s) parentHandle name False of
        Inl err \<Rightarrow> (Some err, s)
      | Inr d' \<Rightarrow>
          (let s1 = s\<lparr>disk := d'\<rparr>;
               s2 = (case selectedFile s1 of
                       None \<Rightarrow> s1
                     | Some f \<Rightarrow> if node_name f = name then s1\<lparr>selectedFile := None\<rparr> else s1)
           in refreshDirectory lc s2))"


section \<open>The explorer\<close>

text \<open>The explorer's own state (\<^verbatim>\<open>dragState\<close>, the drop target's \<^verbatim>\<open>isDragOver\<close>), the
  alerts shown to the user, and the context. \<open>mv\<close> is the \<^verbatim>\<open>moveFile\<close> the context
  provides.\<close>

record explorer =
  ctx :: state
  dragState :: "(FileNode \<times> handle) option"
  isDragOver :: bool
  alerts :: "string list"



text \<open>\<^verbatim>\<open>handleDelete\<close> (lines 95 to 104 of the explorer), once the user has confirmed.\<close>

definition handleDelete ::
  "(string \<Rightarrow> string \<Rightarrow> int) \<Rightarrow> FileNode \<Rightarrow> handle \<Rightarrow> explorer \<Rightarrow> explorer" where
  "handleDelete lc node parentHandle u =
     (case deleteEntry lc parentHandle (node_name node) (ctx u) of
        (Some err, s') \<Rightarrow> u\<lparr>ctx := s', alerts := alerts u @ [''Failed to delete'']\<rparr>
      | (None, s') \<Rightarrow> u\<lparr>ctx := s'\<rparr>)"

section \<open>The editor\<close>

text \<open>The values \<^verbatim>\<open>JSON.parse\<close> produces. Numbers are taken as integers, a string as the
  list of its code units, and an object as the list of its properties, one per key.\<close>

datatype json =
  JNull | JBool bool | JNum int | JStr string | JArr "json list" | JObj "(string \<times> json) list"

text \<open>What the language does with such values: truthiness of a value that may be
  \<^verbatim>\<open>undefined\<close> (\<open>None\<close>), reading a property of a value that is not \<^verbatim>\<open>null\<close>, and the own
  enumerable properties a rest pattern collects.\<close>

fun truthy :: "json option \<Rightarrow> bool" where
  "truthy None = False"
| "truthy (Some JNull) = False"
| "truthy (Some (JBool b)) = b"
| "truthy (Some (JNum n)) = (n \<noteq> 0)"
| "truthy (Some (JStr s)) = (s \<noteq> [])"
| "truthy (Some (JArr xs)) = True"
| "truthy (Some (JObj kvs)) = True"

fun getProp :: "json \<Rightarrow> string \<Rightarrow> json option" where
  "getProp (JObj kvs) k = map_of kvs k"
| "getProp v k = None"

function showNat :: "nat \<Rightarrow> string" where
  "showNat n =
     (if n < 10 then [char_of (48 + n)] else showNat (n div 10) @ [char_of (48 + n mod 10)])"
  by pat_completeness auto
termination
  by (relation "measure (\<lambda>n. n)") auto

fun ownProps :: "json \<Rightarrow> (string \<times> json) list" where
  "ownProps (JObj kvs) = kvs"
| "ownProps (JArr xs) = zip (map showNat [0..<length xs]) xs"
| "ownProps (JStr s) = zip (map showNat [0..<length s]) (map (\<lambda>c. JStr [c]) s)"
| "ownProps v = []"

definition orElse :: "json option \<Rightarrow> json \<Rightarrow> json" where
  "orElse v d = (case v of None \<Rightarrow> d | Some x \<Rightarrow> if truthy (Some x) then x else d)"

definition nullish :: "json option \<Rightarrow> json \<Rightarrow> json" where
  "nullish v d = (case v of None \<Rightarrow> d | Some JNull \<Rightarrow> d | Some x \<Rightarrow> x)"

text \<open>The document handed to the drawing engine (\<^verbatim>\<open>initialData\<close>).\<close>

record document =
  elements :: json
  appState :: "string \<rightharpoonup> json"
  files :: json

text \<open>The fallback of the inner \<^verbatim>\<open>catch\<close> (lines 48 to 58 of the editor).\<close>

definition emptyDocument :: document where
  "emptyDocument =
     \<lparr>elements = JArr [],
      appState = [''viewBackgroundColor'' \<mapsto> JStr ''#ffffff'',
                  ''currentItemFontFamily'' \<mapsto> JNum 2,
                  ''currentItemRoughness'' \<mapsto> JNum 0],
      files = JObj []\<rparr>"

text \<open>The body of the inner \<^verbatim>\<open>try\<close> after \<^verbatim>\<open>JSON.parse\<close> (lines 36 to 47): reading
  \<^verbatim>\<open>parsed.appState\<close> of \<^verbatim>\<open>null\<close> throws, which is \<open>None\<close> here.\<close>

definition fromParsed :: "json \<Rightarrow> document option" where
  "fromParsed parsed =
     (if parsed = JNull then None
      else
        let restAppState =
              map_of (filter (\<lambda>(k, v). k \<noteq> ''collaborators'')
                        (ownProps (orElse (getProp parsed ''appState'') (JObj []))))
        in Some
             \<lparr>elements = orElse (getProp parsed ''elements'') (JArr []),
              appState = restAppState
                (''viewBackgroundColor'' \<mapsto>
                   orElse (restAppState ''viewBackgroundColor'') (JStr ''#ffffff''),
                 ''currentItemFontFamily'' \<mapsto>
                   nullish (restAppState ''currentItemFontFamily'') (JNum 2),
                 ''currentItemRoughness'' \<mapsto>
                   nullish (restAppState ''currentItemRoughness'') (JNum 0)),
              files = orElse (getProp parsed ''files'') (JObj [])\<rparr>)"

text \<open>The state of the \<^verbatim>\<open>Editor\<close> component (lines 9 to 14), with the context it reads, a
  clock in milliseconds, and the calls of \<^verbatim>\<open>saveFileContent\<close> made so far. The pending timer
  is its deadline and what the callback closed over: the selected node and the three
  arguments of the change event. A timer that has fired leaves the slot empty: clearing a
  timer that has fired does nothing. The error state is the error whose message the source
  keeps.\<close>

record editor =
  fs :: state
  initialData :: "document option"
  isLoading :: bool
  error :: "fs_error option"
  saveTimeoutRef :: "(nat \<times> FileNode \<times> json \<times> json \<times> json) option"
  now :: nat
  saveCalls :: "(handle \<times> string) list"

text \<open>The first effect on \<^verbatim>\<open>selectedFile\<close> (lines 17 to 23).\<close>

definition resetEffect :: "editor \<Rightarrow> editor" where
  "resetEffect e =
     (let e1 = e\<lparr>initialData := None, error := None\<rparr>
      in if selectedFile (fs e) \<noteq> None then e1\<lparr>isLoading := True\<rparr> else e1)"

text \<open>\<^verbatim>\<open>loadFile\<close> (lines 26 to 65) and the effect that calls it (lines 67 to 69), run to the
  end. \<open>parse\<close> is \<^verbatim>\<open>JSON.parse\<close>, \<open>None\<close> when it throws.\<close>

definition loadFile :: "(string \<Rightarrow> json option) \<Rightarrow> editor \<Rightarrow> editor" where
  "loadFile parse e =
     (case selectedFile (fs e) of
        None \<Rightarrow> e\<lparr>isLoading := False\<rparr>
      | Some f \<Rightarrow>
          if node_kind f \<noteq> File then e\<lparr>isLoading := False\<rparr>
          else (case readFileContent (disk (fs e)) (node_handle f) of
                  Inl err \<Rightarrow> e\<lparr>error := Some err, isLoading := False\<rparr>
                | Inr content \<Rightarrow>
                    (case parse content of
                       None \<Rightarrow> e\<lparr>initialData := Some emptyDocument, isLoading := False\<rparr>
                     | Some parsed \<Rightarrow>
                         (case fromParsed parsed of
                            None \<Rightarrow> e\<lparr>initialData := Some emptyDocument, isLoading := False\<rparr>
                          | Some doc \<Rightarrow> e\<lparr>initialData := Some doc, isLoading := False\<rparr>))))"

definition loadEffect :: "(string \<Rightarrow> json option) \<Rightarrow> editor \<Rightarrow> editor" where
  "loadEffect parse e = (if selectedFile (fs e) \<noteq> None then loadFile parse e else e)"

text \<open>A change of the selection, to another node object or to or from none: the context's
  \<^verbatim>\<open>selectFile\<close>, then both effects.\<close>

definition selectionChange ::
  "(string \<Rightarrow> json option) \<Rightarrow> FileNode option \<Rightarrow> editor \<Rightarrow> editor" where
  "selectionChange parse sel e = loadEffect parse (resetEffect (e\<lparr>fs := selectFile sel (fs e)\<rparr>))"

text \<open>A call of \<^verbatim>\<open>selectFile\<close> as the editor sees it. \<open>sameObject\<close> says that the node
  passed is the very object already selected; a node of a later scan is another object, even
  when it is equal as a value. With the same object, or none again, the state is kept and no
  effect runs; otherwise the selection has changed.\<close>

definition selectFileCall ::
  "(string \<Rightarrow> json option) \<Rightarrow> bool \<Rightarrow> FileNode option \<Rightarrow> editor \<Rightarrow> editor" where
  "selectFileCall parse sameObject sel e =
     (if sel = selectedFile (fs e) \<and> (sel = None \<or> sameObject) then e
      else selectionChange parse sel e)"

text \<open>\<^verbatim>\<open>handleChange\<close> (lines 72 to 92): clear the pending timer and set a new one, one second
  from now.\<close>

definition handleChange :: "json \<Rightarrow> json \<Rightarrow> json \<Rightarrow> editor \<Rightarrow> editor" where
  "handleChange els app fls e =
     (case selectedFile (fs e) of
        None \<Rightarrow> e
      | Some f \<Rightarrow> e\<lparr>saveTimeoutRef := Some (now e + 1000, f, els, app, fls)\<rparr>)"

text \<open>The timer's callback (lines 79 to 91). \<open>stringify\<close> is \<^verbatim>\<open>JSON.stringify\<close> with
  indentation 2. A failed save is logged and swallowed.\<close>

definition fire ::
  "(json \<Rightarrow> string) \<Rightarrow> FileNode \<times> json \<times> json \<times> json \<Rightarrow> editor \<Rightarrow> editor" where
  "fire stringify cap e =
     (case cap of (f, els, app, fls) \<Rightarrow>
        let content = stringify (JObj [(''elements'', els), (''appState'', app), (''files'', fls)]);
            e1 = e\<lparr>saveCalls := saveCalls e @ [(node_handle f, content)]\<rparr>
        in (case saveFileContent (disk (fs e)) (node_handle f) content of
              Inl err \<Rightarrow> e1
            | Inr d' \<Rightarrow> e1\<lparr>fs := (fs e)\<lparr>disk := d'\<rparr>\<rparr>))"

text \<open>Time passing: the pending timer fires once its deadline is reached.\<close>

definition advance :: "(json \<Rightarrow> string) \<Rightarrow> nat \<Rightarrow> editor \<Rightarrow> editor" where
  "advance stringify dt e =
     (let e1 = e\<lparr>now := now e + dt\<rparr>
      in case saveTimeoutRef e of
           None \<Rightarrow> e1
         | Some (deadline, cap) \<Rightarrow>
             if deadline \<le> now e1 then fire stringify cap (e1\<lparr>saveTimeoutRef := None\<rparr>)
             else e1)"

text \<open>A run of change events, each after the given delay since the one before.\<close>

fun changeEvents ::
  "(json \<Rightarrow> string) \<Rightarrow> (nat \<times> json \<times> json \<times> json) list \<Rightarrow> editor \<Rightarrow> editor" where
  "changeEvents stringify [] e = e"
| "changeEvents stringify ((dt, els, app, fls) # evs) e =
     changeEvents stringify evs (handleChange els app fls (advance stringify dt e))"

section \<open>Notions used in the statements\<close>

text \<open>The sibling lists of a tree: the root list, and the children of every directory node
  at every depth.\<close>

fun subLists :: "FileNode \<Rightarrow> FileNode list list" where
  "subLists (FileNode i n k h None) = []"
| "subLists (FileNode i n k h (Some ch)) = ch # concat (map subLists ch)"

definition siblingLists :: "FileNode list \<Rightarrow> FileNode list list" where
  "siblingLists t = t # concat (map subLists t)"

text \<open>The nodes of a tree, at every depth.\<close>

fun allNodes :: "FileNode \<Rightarrow> FileNode list" where
  "allNodes (FileNode i n k h None) = [FileNode i n k h None]"
| "allNodes (FileNode i n k h (Some ch)) = FileNode i n k h (Some ch) # concat (map allNodes ch)"

definition treeNodes :: "FileNode list \<Rightarrow> FileNode list" where
  "treeNodes t = concat (map allNodes t)"

text \<open>What the sort relies on in \<^verbatim>\<open>localeCompare\<close>: any two names compare one way or the
  other, and transitively.\<close>

definition consistentComparator :: "(string \<Rightarrow> string \<Rightarrow> int) \<Rightarrow> bool" where
  "consistentComparator lc =
     ((\<forall>a b. lc a b \<le> 0 \<or> lc b a \<le> 0) \<and>
      (\<forall>a b c. lc a b \<le> 0 \<longrightarrow> lc b c \<le> 0 \<longrightarrow> lc a c \<le> 0))"

text \<open>Node \<open>a\<close> may stand before node \<open>b\<close>: no file before a directory, and within one kind
  the names in the order of \<open>lc\<close>.\<close>

definition inOrder :: "(string \<Rightarrow> string \<Rightarrow> int) \<Rightarrow> FileNode \<Rightarrow> FileNode \<Rightarrow> bool" where
  "inOrder lc a b =
     ((node_kind a = File \<longrightarrow> node_kind b = File) \<and>
      (node_kind a = node_kind b \<longrightarrow> lc (node_name a) (node_name b) \<le> 0))"

text \<open>A node the filters let through: not hidden, and a file only with the suffix.\<close>

definition shown :: "FileNode \<Rightarrow> bool" where
  "shown n =
     (\<not> startsWith (node_name n) ''.'' \<and>
      (node_kind n = File \<longrightarrow> endsWith (node_name n) ''.excalidraw''))"

text \<open>A directory as the platform keeps it: one entry per name, every name valid.\<close>

definition wellFormedDir :: "fsentry list \<Rightarrow> bool" where
  "wellFormedDir es =
     (distinct (map entryName es) \<and> list_all (\<lambda>e. validName (entryName e)) es)"

text \<open>An entry the filters let through.\<close>

definition kept :: "fsentry \<Rightarrow> bool" where
  "kept e =
     (case e of
        FileEntry n c \<Rightarrow> endsWith n ''.excalidraw'' \<and> \<not> startsWith n ''.''
      | DirEntry n sub \<Rightarrow> \<not> startsWith n ''.'')"

text \<open>A handle at or below the open root, if there is one.\<close>

definition withinRoot :: "state \<Rightarrow> handle \<Rightarrow> bool" where
  "withinRoot s h =
     (case rootHandle s of
        None \<Rightarrow> True
      | Some r \<Rightarrow> take (length (hpath r)) (hpath h) = hpath r)"

text \<open>The open root, if any, can still be enumerated.\<close>

definition rootReadable :: "state \<Rightarrow> bool" where
  "rootReadable s =
     (case rootHandle s of
        None \<Rightarrow> True
      | Some r \<Rightarrow> resolveDir (disk s) (hpath r) \<noteq> None)"

text \<open>For the examples: a comparator by code units, a parser that knows three texts (the
  third is an object whose \<^verbatim>\<open>elements\<close> is the number 7), and a serialiser that gives
  the text of the first element.\<close>

fun compareCodeUnits :: "string \<Rightarrow> string \<Rightarrow> int" where
  "compareCodeUnits [] [] = 0"
| "compareCodeUnits [] (y # ys) = - 1"
| "compareCodeUnits (x # xs) [] = 1"
| "compareCodeUnits (x # xs) (y # ys) =
     (if (of_char x :: nat) < of_char y then - 1
      else if (of_char y :: nat) < of_char x then 1
      else compareCodeUnits xs ys)"

definition wrongShapeText :: string where
  "wrongShapeText = ''{'' @ [CHR 0x22] @ ''elements'' @ [CHR 0x22] @ '':7}''"

definition exampleParse :: "string \<Rightarrow> json option" where
  "exampleParse s =
     (if s = ''null'' then Some JNull
      else if s = ''{}'' then Some (JObj [])
      else if s = wrongShapeText then Some (JObj [(''elements'', JNum 7)])
      else None)"

fun exampleStringify :: "json \<Rightarrow> string" where
  "exampleStringify (JObj ((k, JArr (JStr t # els)) # kvs)) = t"
| "exampleStringify v = []"

text \<open>A disk and a state for the examples.\<close>

definition exampleDisk :: "fsentry list" where
  "exampleDisk =
     [FileEntry ''b.excalidraw'' ''{}'', FileEntry ''notes.txt'' ''x'',
      DirEntry ''.git'' [FileEntry ''c.excalidraw'' []],
      DirEntry ''work''
        [FileEntry ''z.excalidraw'' ''not json'', DirEntry ''sub'' [],
         FileEntry ''a.excalidraw'' ''null''],
      FileEntry ''.h.excalidraw'' [],
      DirEntry ''old'' [FileEntry ''a.excalidraw'' []],
      FileEntry ''a.excalidraw'' []]"

definition exampleNode :: FileNode where
  "exampleNode =
     FileNode ''work/a.excalidraw'' ''a.excalidraw'' File (Handle File [''work'', ''a.excalidraw''])
       None"

definition exampleState :: state where
  "exampleState =
     \<lparr>disk = exampleDisk, rootHandle = Some (Handle Directory []), fileTree = [],
      selectedFile = Some exampleNode\<rparr>"

definition shapeNode :: FileNode where
  "shapeNode = FileNode ''c.excalidraw'' ''c.excalidraw'' File (Handle File [''c.excalidraw'']) None"

definition shapeEditor :: editor where
  "shapeEditor =
     \<lparr>fs = \<lparr>disk = [FileEntry ''c.excalidraw'' wrongShapeText],
             rootHandle = Some (Handle Directory []), fileTree = [], selectedFile = None\<rparr>,
      initialData = None, isLoading = False, error = None,
      saveTimeoutRef = None, now = 0, saveCalls = []\<rparr>"

definition folderNamedLikeFile :: state where
  "folderNamedLikeFile =
     \<lparr>disk = [DirEntry ''d.excalidraw'' []], rootHandle = Some (Handle Directory []),
      fileTree = [], selectedFile = None\<rparr>"

definition otherNode :: FileNode where
  "otherNode =
     FileNode ''work/z.excalidraw'' ''z.excalidraw'' File (Handle File [''work'', ''z.excalidraw''])
       None"

definition exampleEditor :: editor where
  "exampleEditor =
     \<lparr>fs = exampleState, initialData = None, isLoading = False, error = None,
      saveTimeoutRef = None, now = 0, saveCalls = []\<rparr>"


section \<open>Facts about the disk\<close>

lemma findEntry_name: "findEntry n es = Some e \<Longrightarrow> entryName e = n"
  by (induction es) (auto split: if_splits)

lemma findEntry_replaceEntry:
  "findEntry n es = Some e \<Longrightarrow> entryName e' = n \<Longrightarrow> findEntry n (replaceEntry n e' es) = Some e'"
  by (induction es) (auto split: if_splits)

lemma replaceEntry_same: "findEntry n es = Some e \<Longrightarrow> replaceEntry n e es = es"
  by (induction es) (auto split: if_splits)

lemma modifyDir_fails:
  "resolveDir d p = Some es \<Longrightarrow> f es = Inl err \<Longrightarrow> modifyDir p f d = Inl err"
  by (induction p arbitrary: d) (auto split: option.splits fsentry.splits)

lemma modifyDir_missing: "resolveDir d p = None \<Longrightarrow> modifyDir p f d = Inl NotFoundError"
  by (induction p arbitrary: d) (auto split: option.splits fsentry.splits)

lemma modifyDir_succeeds:
  "resolveDir d p = Some es \<Longrightarrow> f es = Inr es' \<Longrightarrow>
   \<exists>d'. modifyDir p f d = Inr d' \<and> resolveDir d' p = Some es'"
proof (induction p arbitrary: d)
  case Nil
  then show ?case by simp
next
  case (Cons n p)
  from Cons.prems(1) obtain m sub where
    fe: "findEntry n d = Some (DirEntry m sub)" and rs: "resolveDir sub p = Some es"
    by (auto split: option.splits fsentry.splits)
  from findEntry_name [OF fe] have mn: "m = n" by simp
  from Cons.IH [OF rs Cons.prems(2)] obtain sub' where
    md: "modifyDir p f sub = Inr sub'" and rs': "resolveDir sub' p = Some es'"
    by blast
  have "findEntry n (replaceEntry n (DirEntry m sub') d) = Some (DirEntry m sub')"
    using fe mn by (simp add: findEntry_replaceEntry)
  with fe md rs' show ?case by simp
qed

lemma modifyDir_unchanged:
  "resolveDir d p = Some es \<Longrightarrow> f es = Inr es \<Longrightarrow> modifyDir p f d = Inr d"
proof (induction p arbitrary: d)
  case Nil
  then show ?case by simp
next
  case (Cons n p)
  from Cons.prems(1) obtain m sub where
    fe: "findEntry n d = Some (DirEntry m sub)" and rs: "resolveDir sub p = Some es"
    by (auto split: option.splits fsentry.splits)
  from Cons.IH [OF rs Cons.prems(2)] have "modifyDir p f sub = Inr sub" .
  with fe show ?case by (simp add: replaceEntry_same)
qed

lemma findEntry_dropEntry:
  "distinct (map entryName es) \<Longrightarrow> findEntry n (dropEntry n es) = None"
proof (induction es)
  case Nil
  then show ?case by simp
next
  case (Cons e es)
  have "\<And>xs. n \<notin> entryName ` set xs \<Longrightarrow> findEntry n xs = None"
  proof -
    fix xs show "n \<notin> entryName ` set xs \<Longrightarrow> findEntry n xs = None"
      by (induction xs) auto
  qed
  with Cons show ?case by auto
qed

lemma refreshDirectory_readable:
  "rootReadable s \<Longrightarrow> fst (refreshDirectory lc s) = None"
  by (auto simp: rootReadable_def refreshDirectory_def scanDirectory_def split: option.splits)

lemma refreshDirectory_keeps:
  "disk (snd (refreshDirectory lc s)) = disk s \<and>
   selectedFile (snd (refreshDirectory lc s)) = selectedFile s \<and>
   rootHandle (snd (refreshDirectory lc s)) = rootHandle s"
  by (auto simp: refreshDirectory_def split: option.splits sum.splits)

lemma findEntry_member: "findEntry n es = Some e \<Longrightarrow> e \<in> set es"
  by (induction es) (auto split: if_splits)

lemma resolveDir_append: "resolveDir d (p @ q) = Some es \<Longrightarrow> resolveDir d p \<noteq> None"
  by (induction p arbitrary: d) (auto split: option.splits fsentry.splits)

lemma withinRoot_readable:
  assumes "withinRoot s h" "resolveDir d (hpath h) = Some es" "rootHandle s' = rootHandle s"
    and "disk s' = d"
  shows "rootReadable s'"
proof (cases "rootHandle s")
  case None
  with assms(3) show ?thesis by (simp add: rootReadable_def)
next
  case (Some r)
  with assms(1) have t: "take (length (hpath r)) (hpath h) = hpath r"
    by (simp add: withinRoot_def)
  have "resolveDir d (take (length (hpath r)) (hpath h) @ drop (length (hpath r)) (hpath h))
          = Some es"
    using assms(2) by simp
  then have "resolveDir d (take (length (hpath r)) (hpath h)) \<noteq> None"
    by (rule resolveDir_append)
  with t have "resolveDir d (hpath r) \<noteq> None"
    by simp
  with Some assms(3,4) show ?thesis by (simp add: rootReadable_def)
qed

lemma findEntry_append:
  "findEntry n (xs @ ys) = (case findEntry n xs of None \<Rightarrow> findEntry n ys | Some x \<Rightarrow> Some x)"
  by (induction xs) auto

lemma findEntry_absent: "(findEntry n es = None) = (n \<notin> entryName ` set es)"
  by (induction es) auto

lemma findEntry_inserted:
  assumes "findEntry n es = None"
  shows "findEntry n (take k es @ FileEntry n c # drop k es) = Some (FileEntry n c)"
proof -
  have "n \<notin> entryName ` set (take k es)"
    using assms by (auto simp: findEntry_absent dest: in_set_takeD)
  then have "findEntry n (take k es) = None"
    using findEntry_absent [of n "take k es"] by blast
  then show ?thesis by (simp add: findEntry_append)
qed

lemma mset_inserted: "mset (take k es @ e # drop k es) = add_mset e (mset es)"
proof -
  have "mset (take k es) + mset (drop k es) = mset es"
    by (simp add: mset_append [symmetric] del: mset_append)
  then show ?thesis by simp
qed

lemma save_then_read:
  assumes "readFileContent d h = Inr old"
  shows "\<exists>d'. saveFileContent d h content = Inr d' \<and> readFileContent d' h = Inr content"
proof -
  from assms obtain n p where np: "hpath h = n # p"
    by (cases "hpath h") (simp_all add: readFileContent_def)
  from assms np obtain es where es: "resolveDir d (butlast (n # p)) = Some es"
    by (auto simp: readFileContent_def split: option.splits)
  from assms np es obtain m where m: "findEntry (last (n # p)) es = Some (FileEntry m old)"
    by (auto simp: readFileContent_def split: option.splits fsentry.splits)
  from findEntry_name [OF m] have mn: "m = last (n # p)" by simp
  have w: "writeIn (last (n # p)) content es
             = Inr (replaceEntry (last (n # p)) (FileEntry m content) es)"
    using m by (simp add: writeIn_def)
  from modifyDir_succeeds [where f = "writeIn (last (n # p)) content", OF es w]
  obtain d' where d': "modifyDir (butlast (n # p)) (writeIn (last (n # p)) content) d = Inr d'"
    "resolveDir d' (butlast (n # p)) = Some (replaceEntry (last (n # p)) (FileEntry m content) es)"
    by blast
  have "findEntry (last (n # p)) (replaceEntry (last (n # p)) (FileEntry m content) es)
          = Some (FileEntry m content)"
    using m mn by (simp add: findEntry_replaceEntry)
  with d' np show ?thesis
    by (simp add: saveFileContent_def readFileContent_def)
qed

section \<open>Facts about the sort and the scan\<close>

lemma compareNodes_inOrder: "(compareNodes lc a b \<le> 0) = inOrder lc a b"
  by (cases "node_kind a"; cases "node_kind b") (auto simp: compareNodes_def inOrder_def)

lemma inOrder_total: "consistentComparator lc \<Longrightarrow> \<not> inOrder lc a b \<Longrightarrow> inOrder lc b a"
  unfolding consistentComparator_def inOrder_def
  by (cases "node_kind a"; cases "node_kind b") auto

lemma inOrder_trans:
  "consistentComparator lc \<Longrightarrow> inOrder lc a b \<Longrightarrow> inOrder lc b c \<Longrightarrow> inOrder lc a c"
proof -
  assume cc: "consistentComparator lc" and ab: "inOrder lc a b" and bc: "inOrder lc b c"
  from cc have tr: "\<And>x y z. lc x y \<le> 0 \<Longrightarrow> lc y z \<le> 0 \<Longrightarrow> lc x z \<le> 0"
    unfolding consistentComparator_def by blast
  show ?thesis
  proof (cases "node_kind a = node_kind b \<and> node_kind b = node_kind c")
    case True
    with ab bc have "lc (node_name a) (node_name b) \<le> 0" "lc (node_name b) (node_name c) \<le> 0"
      by (simp_all add: inOrder_def)
    then have "lc (node_name a) (node_name c) \<le> 0" by (rule tr)
    with True show ?thesis by (simp add: inOrder_def)
  next
    case False
    with ab bc show ?thesis
      by (cases "node_kind a"; cases "node_kind b"; cases "node_kind c") (simp_all add: inOrder_def)
  qed
qed

lemma set_insertNode: "set (insertNode c x ys) = insert x (set ys)"
  by (induction ys) auto

lemma mset_insertNode: "mset (insertNode c x ys) = add_mset x (mset ys)"
  by (induction ys) auto

lemma mset_sortNodes: "mset (sortNodes lc xs) = mset xs"
  unfolding sortNodes_def by (induction xs) (simp_all add: mset_insertNode)

lemma set_sortNodes: "set (sortNodes lc xs) = set xs"
  using mset_sortNodes [of lc xs] by (metis set_mset_mset)

lemma sorted_insertNode:
  assumes "consistentComparator lc" "sorted_wrt (inOrder lc) ys"
  shows "sorted_wrt (inOrder lc) (insertNode (compareNodes lc) x ys)"
  using assms(2)
proof (induction ys)
  case Nil
  then show ?case by simp
next
  case (Cons y ys)
  show ?case
  proof (cases "inOrder lc x y")
    case True
    have "\<forall>z\<in>set ys. inOrder lc x z"
      using Cons.prems True inOrder_trans [OF assms(1)] by auto
    with True Cons.prems show ?thesis
      by (simp add: compareNodes_inOrder)
  next
    case False
    then have "inOrder lc y x" by (rule inOrder_total [OF assms(1)])
    with False Cons show ?thesis
      by (auto simp: compareNodes_inOrder set_insertNode)
  qed
qed

lemma sorted_sortNodes:
  "consistentComparator lc \<Longrightarrow> sorted_wrt (inOrder lc) (sortNodes lc xs)"
  unfolding sortNodes_def
  by (induction xs) (simp_all add: sorted_insertNode [unfolded sortNodes_def])

lemma subLists_scanLoop:
  "consistentComparator lc \<Longrightarrow> n \<in> set (scanLoop lc hp path es) \<Longrightarrow> l \<in> set (subLists n)
     \<Longrightarrow> sorted_wrt (inOrder lc) l"
proof (induction lc hp path es arbitrary: n l rule: scanLoop.induct)
  case (1 lc hp path)
  then show ?case by simp
next
  case (2 lc hp path name c es)
  then show ?case by (auto split: if_splits)
next
  case (3 lc hp path name sub es)
  note cc = "3.prems"(1)
  show ?case
  proof (cases "startsWith name ''.''")
    case True
    with 3 show ?thesis by auto
  next
    case False
    from "3.prems"(2) False consider
      (here) "n = FileNode (nodePath path name) name Directory (Handle Directory (hp @ [name]))
             (Some (sortNodes lc (sortNodes lc (scanLoop lc (hp @ [name]) (nodePath path name) sub))))"
      | (rest) "n \<in> set (scanLoop lc hp path es)"
      by auto
    then show ?thesis
    proof cases
      case here
      with "3.prems"(3) consider
        "l = sortNodes lc (sortNodes lc (scanLoop lc (hp @ [name]) (nodePath path name) sub))"
        | m where "m \<in> set (scanLoop lc (hp @ [name]) (nodePath path name) sub)" "l \<in> set (subLists m)"
        by (auto simp: set_sortNodes)
      then show ?thesis
      proof cases
        case 1
        show ?thesis unfolding 1 by (rule sorted_sortNodes [OF cc])
      next
        case 2
        then show ?thesis using "3.IH"(2) [OF False cc] by blast
      qed
    next
      case rest
      then show ?thesis using "3.IH"(3) [OF False cc] "3.prems"(3) by blast
    qed
  qed
qed

lemma allNodes_scanLoop:
  "n \<in> set (scanLoop lc hp path es) \<Longrightarrow> m \<in> set (allNodes n) \<Longrightarrow> shown m"
proof (induction lc hp path es arbitrary: n m rule: scanLoop.induct)
  case (1 lc hp path)
  then show ?case by simp
next
  case (2 lc hp path name c es)
  then show ?case by (auto simp: shown_def split: if_splits)
next
  case (3 lc hp path name sub es)
  show ?case
  proof (cases "startsWith name ''.''")
    case True
    with 3 show ?thesis by auto
  next
    case False
    from "3.prems"(1) False consider
      (here) "n = FileNode (nodePath path name) name Directory (Handle Directory (hp @ [name]))
             (Some (sortNodes lc (sortNodes lc (scanLoop lc (hp @ [name]) (nodePath path name) sub))))"
      | (rest) "n \<in> set (scanLoop lc hp path es)"
      by auto
    then show ?thesis
    proof cases
      case here
      with "3.prems"(2) consider "m = n"
        | k where "k \<in> set (scanLoop lc (hp @ [name]) (nodePath path name) sub)" "m \<in> set (allNodes k)"
        by (auto simp: set_sortNodes)
      then show ?thesis
      proof cases
        case 1
        with here False show ?thesis by (simp add: shown_def)
      next
        case 2
        then show ?thesis using "3.IH"(2) [OF False] by blast
      qed
    next
      case rest
      then show ?thesis using "3.IH"(3) [OF False] "3.prems" by blast
    qed
  qed
qed

lemma scanLoop_keeps_directory:
  "DirEntry name sub \<in> set es \<Longrightarrow> \<not> startsWith name ''.'' \<Longrightarrow>
   FileNode (nodePath path name) name Directory (Handle Directory (hp @ [name]))
     (Some (sortNodes lc (scanEntries lc (hp @ [name]) (nodePath path name) sub)))
     \<in> set (scanLoop lc hp path es)"
proof (induction es)
  case Nil
  then show ?case by simp
next
  case (Cons e es)
  then show ?case by (cases e) (auto simp: scanEntries_def)
qed

lemma names_scanLoop:
  "mset (map node_name (scanLoop lc hp path es)) = mset (map entryName (filter kept es))"
proof (induction es)
  case Nil
  then show ?case by simp
next
  case (Cons e es)
  then show ?case by (cases e) (auto simp: kept_def)
qed

lemma compareCodeUnits_total: "compareCodeUnits a b \<le> 0 \<or> compareCodeUnits b a \<le> 0"
  by (induction a b rule: compareCodeUnits.induct) auto

lemma compareCodeUnits_trans:
  "compareCodeUnits a b \<le> 0 \<Longrightarrow> compareCodeUnits b c \<le> 0 \<Longrightarrow> compareCodeUnits a c \<le> 0"
proof (induction a arbitrary: b c)
  case Nil
  then show ?case by (cases c) auto
next
  case (Cons x xs)
  then show ?case
    by (cases b; cases c) (auto split: if_splits)
qed

lemma compareCodeUnits_consistent: "consistentComparator compareCodeUnits"
  unfolding consistentComparator_def
  using compareCodeUnits_total compareCodeUnits_trans by blast

lemma count_names:
  "length (filter (\<lambda>n. node_name n = x) ns) = count (mset (map node_name ns)) x"
  by (induction ns) auto

lemma scanned_name_count:
  assumes "distinct (map entryName es)" "findEntry x es = Some e"
  shows "length (filter (\<lambda>n. node_name n = x) (scanEntries lc hp path es)) = (if kept e then 1 else 0)"
proof -
  have e: "e \<in> set es" "entryName e = x"
    using assms(2) by (simp_all add: findEntry_member findEntry_name)
  have inj: "inj_on entryName (set es)"
    using assms(1) by (simp add: distinct_map)
  have d: "distinct (map entryName (filter kept es))"
    using assms(1) by (rule distinct_map_filter)
  have "mset (map node_name (scanEntries lc hp path es)) = mset (map entryName (filter kept es))"
    using mset_sortNodes [of lc "scanLoop lc hp path es"] names_scanLoop [of lc hp path es]
    by (metis scanEntries_def mset_map)
  then have "length (filter (\<lambda>n. node_name n = x) (scanEntries lc hp path es))
               = count (mset (map entryName (filter kept es))) x"
    by (simp add: count_names)
  also have "\<dots> = (if x \<in> set (map entryName (filter kept es)) then 1 else 0)"
    using d by (simp add: distinct_count_atmost_1)
  also have "x \<in> set (map entryName (filter kept es)) \<longleftrightarrow> kept e"
  proof
    assume "x \<in> set (map entryName (filter kept es))"
    then obtain e2 where e2: "e2 \<in> set es" "kept e2" "entryName e2 = x" by auto
    with e inj have "e2 = e" by (auto dest: inj_onD)
    with e2 show "kept e" by simp
  next
    assume "kept e"
    with e show "x \<in> set (map entryName (filter kept es))" by force
  qed
  finally show ?thesis .
qed

lemma endsWith_fileName: "endsWith (fileName name) ''.excalidraw''"
  by (simp add: fileName_def endsWith_def)

section \<open>Facts about the editor\<close>

lemma selectionChange_Some:
  "selectionChange parse (Some f) e =
     loadFile parse (e\<lparr>fs := (fs e)\<lparr>selectedFile := Some f\<rparr>, initialData := None, error := None,
                      isLoading := True\<rparr>)"
  by (simp add: selectionChange_def loadEffect_def resetEffect_def selectFile_def Let_def)


lemma saveCalls_fire:
  "saveCalls (fire stringify (f, els, app, fls) e) =
     saveCalls e @
       [(node_handle f,
         stringify (JObj [(''elements'', els), (''appState'', app), (''files'', fls)]))]"
  by (simp add: fire_def Let_def split: sum.splits)

lemma saveTimeoutRef_fire:
  "saveTimeoutRef (fire stringify cap e) = saveTimeoutRef e"
  by (cases cap) (simp add: fire_def Let_def split: sum.splits)

lemma advance_before_deadline:
  "saveTimeoutRef e = Some (deadline, cap) \<Longrightarrow> now e + dt < deadline \<Longrightarrow>
   advance stringify dt e = e\<lparr>now := now e + dt\<rparr>"
  by (simp add: advance_def Let_def)

lemma advance_idle: "saveTimeoutRef e = None \<Longrightarrow> advance stringify dt e = e\<lparr>now := now e + dt\<rparr>"
  by (simp add: advance_def Let_def)

lemma burst_while_armed:
  "selectedFile (fs e) = Some f \<Longrightarrow> saveTimeoutRef e = Some (now e + 1000, cap) \<Longrightarrow>
   \<forall>ev \<in> set evs. fst ev < 1000 \<Longrightarrow>
   saveCalls (changeEvents stringify evs e) = saveCalls e \<and>
   fs (changeEvents stringify evs e) = fs e \<and>
   saveTimeoutRef (changeEvents stringify evs e) =
     Some (now (changeEvents stringify evs e) + 1000,
           if evs = [] then cap else (f, snd (last evs)))"
proof (induction evs arbitrary: e cap)
  case Nil
  then show ?case by simp
next
  case (Cons ev evs)
  obtain dt els app fls where ev: "ev = (dt, els, app, fls)" by (cases ev) auto
  with Cons.prems(3) have dt: "dt < 1000" by simp
  define e2 where "e2 = handleChange els app fls (advance stringify dt e)"
  have adv: "advance stringify dt e = e\<lparr>now := now e + dt\<rparr>"
    using Cons.prems(2) dt by (simp add: advance_before_deadline)
  have e2: "e2 = e\<lparr>now := now e + dt, saveTimeoutRef := Some (now e + dt + 1000, f, els, app, fls)\<rparr>"
    using Cons.prems(1) by (simp add: e2_def adv handleChange_def)
  have "selectedFile (fs e2) = Some f" "saveTimeoutRef e2 = Some (now e2 + 1000, f, els, app, fls)"
    using Cons.prems(1) by (simp_all add: e2)
  moreover have "\<forall>ev \<in> set evs. fst ev < 1000" using Cons.prems(3) by simp
  ultimately have
    "saveCalls (changeEvents stringify evs e2) = saveCalls e2 \<and>
     fs (changeEvents stringify evs e2) = fs e2 \<and>
     saveTimeoutRef (changeEvents stringify evs e2) =
       Some (now (changeEvents stringify evs e2) + 1000,
             if evs = [] then (f, els, app, fls) else (f, snd (last evs)))"
    by (rule Cons.IH)
  moreover have "changeEvents stringify (ev # evs) e = changeEvents stringify evs e2"
    by (simp add: ev e2_def)
  moreover have "saveCalls e2 = saveCalls e" "fs e2 = fs e" by (simp_all add: e2)
  ultimately show ?case by (simp add: ev)
qed

lemma burst_from_idle:
  assumes "selectedFile (fs e) = Some f" "saveTimeoutRef e = None"
    and "\<forall>ev \<in> set (tl evs). fst ev < 1000"
  shows "saveCalls (changeEvents stringify evs e) = saveCalls e \<and>
         fs (changeEvents stringify evs e) = fs e \<and>
         (evs \<noteq> [] \<longrightarrow>
            saveTimeoutRef (changeEvents stringify evs e) =
              Some (now (changeEvents stringify evs e) + 1000, f, snd (last evs)))"
proof (cases evs)
  case Nil
  then show ?thesis by simp
next
  case (Cons ev rest)
  obtain dt els app fls where ev: "ev = (dt, els, app, fls)" by (cases ev) auto
  define e2 where "e2 = handleChange els app fls (advance stringify dt e)"
  have e2: "e2 = e\<lparr>now := now e + dt, saveTimeoutRef := Some (now e + dt + 1000, f, els, app, fls)\<rparr>"
    using assms(1,2) by (simp add: e2_def advance_idle handleChange_def)
  have "selectedFile (fs e2) = Some f" "saveTimeoutRef e2 = Some (now e2 + 1000, f, els, app, fls)"
    using assms(1) by (simp_all add: e2)
  moreover have "\<forall>ev \<in> set rest. fst ev < 1000" using assms(3) Cons by simp
  ultimately have
    "saveCalls (changeEvents stringify rest e2) = saveCalls e2 \<and>
     fs (changeEvents stringify rest e2) = fs e2 \<and>
     saveTimeoutRef (changeEvents stringify rest e2) =
       Some (now (changeEvents stringify rest e2) + 1000,
             if rest = [] then (f, els, app, fls) else (f, snd (last rest)))"
    by (rule burst_while_armed)
  moreover have "changeEvents stringify evs e = changeEvents stringify rest e2"
    by (simp add: Cons ev e2_def)
  moreover have "saveCalls e2 = saveCalls e" "fs e2 = fs e" by (simp_all add: e2)
  ultimately show ?thesis by (simp add: Cons ev)
qed

section \<open>Scanning a directory\<close>

text \<open>
  Claim C5. In a scanned tree, in every sibling list (the root list and the children of every
  directory), directories stand before files, and within each kind the names are in the
  order of \<^verbatim>\<open>localeCompare\<close>, for a \<^verbatim>\<open>localeCompare\<close> that is a consistent comparator.
\<close>

theorem scan_siblings_ordered:
  assumes "consistentComparator lc"
    and "scanDirectory lc d dirHandle path = Inr tree"
    and "l \<in> set (siblingLists tree)"
  shows "sorted_wrt
           (\<lambda>a b. (node_kind a = File \<longrightarrow> node_kind b = File) \<and>
                  (node_kind a = node_kind b \<longrightarrow> lc (node_name a) (node_name b) \<le> 0)) l"
proof -
  from assms(2) obtain es where tree: "tree = scanEntries lc (hpath dirHandle) path es"
    by (auto simp: scanDirectory_def split: option.splits)
  from assms(3) consider "l = scanEntries lc (hpath dirHandle) path es"
    | n where "n \<in> set (scanLoop lc (hpath dirHandle) path es)" "l \<in> set (subLists n)"
    by (auto simp: tree siblingLists_def scanEntries_def set_sortNodes)
  then have "sorted_wrt (inOrder lc) l"
  proof cases
    case 1
    show ?thesis unfolding 1 scanEntries_def by (rule sorted_sortNodes [OF assms(1)])
  next
    case 2
    show ?thesis by (rule subLists_scanLoop [OF assms(1) 2])
  qed
  then show ?thesis by (simp add: inOrder_def [abs_def])
qed

theorem scan_siblings_ordered_witness:
  "consistentComparator compareCodeUnits \<and>
   scanDirectory compareCodeUnits exampleDisk (Handle Directory []) []
     = Inr (scanEntries compareCodeUnits [] [] exampleDisk) \<and>
   map node_id (scanEntries compareCodeUnits [] [] exampleDisk)
     = [''old'', ''work'', ''a.excalidraw'', ''b.excalidraw''] \<and>
   sorted_wrt
     (\<lambda>a b. (node_kind a = File \<longrightarrow> node_kind b = File) \<and>
            (node_kind a = node_kind b \<longrightarrow> compareCodeUnits (node_name a) (node_name b) \<le> 0))
     (scanEntries compareCodeUnits [] [] exampleDisk)"
proof -
  have s: "scanDirectory compareCodeUnits exampleDisk (Handle Directory []) []
             = Inr (scanEntries compareCodeUnits [] [] exampleDisk)"
    by (simp add: scanDirectory_def)
  have m: "scanEntries compareCodeUnits [] [] exampleDisk
             \<in> set (siblingLists (scanEntries compareCodeUnits [] [] exampleDisk))"
    by (simp add: siblingLists_def)
  have ids: "map node_id (scanEntries compareCodeUnits [] [] exampleDisk)
     = [''old'', ''work'', ''a.excalidraw'', ''b.excalidraw'']"
    by code_simp
  from scan_siblings_ordered [OF compareCodeUnits_consistent s m] compareCodeUnits_consistent s ids
  show ?thesis by blast
qed

text \<open>
  Claim C4. A scanned tree has, at any depth, no node whose name starts with a dot and no file
  node whose name lacks the suffix \<^verbatim>\<open>.excalidraw\<close>; and a scan keeps every directory it
  enumerates whose name does not start with a dot, whatever its name and whether or not it is
  empty, as a directory node whose children are the scan of that directory.
\<close>

theorem scan_filters:
  assumes "scanDirectory lc d dirHandle path = Inr tree"
  shows "(\<forall>n \<in> set (treeNodes tree).
            \<not> startsWith (node_name n) ''.'' \<and>
            (node_kind n = File \<longrightarrow> endsWith (node_name n) ''.excalidraw'')) \<and>
         (\<forall>es name sub.
            resolveDir d (hpath dirHandle) = Some es \<longrightarrow> DirEntry name sub \<in> set es \<longrightarrow>
            \<not> startsWith name ''.'' \<longrightarrow>
            FileNode (nodePath path name) name Directory (Handle Directory (hpath dirHandle @ [name]))
              (Some (sortNodes lc
                 (scanEntries lc (hpath dirHandle @ [name]) (nodePath path name) sub)))
              \<in> set tree)"
proof -
  from assms obtain es where es: "resolveDir d (hpath dirHandle) = Some es"
    and tree: "tree = scanEntries lc (hpath dirHandle) path es"
    by (auto simp: scanDirectory_def split: option.splits)
  have "\<forall>n \<in> set (treeNodes tree). shown n"
    by (auto simp: tree treeNodes_def scanEntries_def set_sortNodes dest: allNodes_scanLoop)
  moreover have "\<forall>name sub. DirEntry name sub \<in> set es \<longrightarrow> \<not> startsWith name ''.'' \<longrightarrow>
            FileNode (nodePath path name) name Directory (Handle Directory (hpath dirHandle @ [name]))
              (Some (sortNodes lc
                 (scanEntries lc (hpath dirHandle @ [name]) (nodePath path name) sub)))
              \<in> set tree"
    by (simp add: tree scanEntries_def [of lc "hpath dirHandle"] set_sortNodes scanLoop_keeps_directory)
  ultimately show ?thesis using es by (simp add: shown_def)
qed

theorem scan_filters_witness:
  "scanDirectory compareCodeUnits exampleDisk (Handle Directory []) []
     = Inr (scanEntries compareCodeUnits [] [] exampleDisk) \<and>
   map node_id (treeNodes (scanEntries compareCodeUnits [] [] exampleDisk))
     = [''old'', ''old/a.excalidraw'', ''work'', ''work/sub'', ''work/a.excalidraw'',
        ''work/z.excalidraw'', ''a.excalidraw'', ''b.excalidraw''] \<and>
   \<not> startsWith (node_name exampleNode) ''.'' \<and>
   endsWith (node_name exampleNode) ''.excalidraw'' \<and>
   FileNode ''work/sub'' ''sub'' Directory (Handle Directory [''work'', ''sub'']) (Some [])
     \<in> set (scanEntries compareCodeUnits [''work''] ''work''
               [FileEntry ''z.excalidraw'' ''not json'', DirEntry ''sub'' [],
                FileEntry ''a.excalidraw'' ''null''])"
proof -
  have s: "scanDirectory compareCodeUnits exampleDisk (Handle Directory []) []
             = Inr (scanEntries compareCodeUnits [] [] exampleDisk)"
    by (simp add: scanDirectory_def)
  have ids: "map node_id (treeNodes (scanEntries compareCodeUnits [] [] exampleDisk))
     = [''old'', ''old/a.excalidraw'', ''work'', ''work/sub'', ''work/a.excalidraw'',
        ''work/z.excalidraw'', ''a.excalidraw'', ''b.excalidraw'']"
    by code_simp
  have m: "exampleNode \<in> set (treeNodes (scanEntries compareCodeUnits [] [] exampleDisk))"
    by code_simp
  have k: "node_kind exampleNode = File"
    by (simp add: exampleNode_def)
  have s2: "scanDirectory compareCodeUnits exampleDisk (Handle Directory [''work'']) ''work''
             = Inr (scanEntries compareCodeUnits [''work''] ''work''
                 [FileEntry ''z.excalidraw'' ''not json'', DirEntry ''sub'' [],
                  FileEntry ''a.excalidraw'' ''null''])"
    by (simp add: scanDirectory_def exampleDisk_def)
  have r: "resolveDir exampleDisk (hpath (Handle Directory [''work''])) = Some
                 [FileEntry ''z.excalidraw'' ''not json'', DirEntry ''sub'' [],
                  FileEntry ''a.excalidraw'' ''null'']"
    by (simp add: exampleDisk_def)
  have e: "sortNodes compareCodeUnits (scanEntries compareCodeUnits [''work'', ''sub''] ''work/sub'' []) = []"
    by code_simp
  from scan_filters [OF s] m k have a: "\<not> startsWith (node_name exampleNode) ''.'' \<and>
   endsWith (node_name exampleNode) ''.excalidraw''" by blast
  from scan_filters [OF s2] r have "FileNode (nodePath ''work'' ''sub'') ''sub'' Directory (Handle Directory ([''work''] @ [''sub'']))
     (Some (sortNodes compareCodeUnits (scanEntries compareCodeUnits ([''work''] @ [''sub'']) (nodePath ''work'' ''sub'') [])))
     \<in> set (scanEntries compareCodeUnits [''work''] ''work''
               [FileEntry ''z.excalidraw'' ''not json'', DirEntry ''sub'' [],
                FileEntry ''a.excalidraw'' ''null''])"
    by (simp add: startsWith_def)
  then have b: "FileNode ''work/sub'' ''sub'' Directory (Handle Directory [''work'', ''sub'']) (Some [])
     \<in> set (scanEntries compareCodeUnits [''work''] ''work''
               [FileEntry ''z.excalidraw'' ''not json'', DirEntry ''sub'' [],
                FileEntry ''a.excalidraw'' ''null''])"
    using e by (simp add: nodePath_def)
  from s ids a b show ?thesis by blast
qed

section \<open>Creating an entry\<close>

text \<open>
  Claim C9 (amended). For a parent at or below the open root, \<^verbatim>\<open>createFile\<close> and
  \<^verbatim>\<open>createFolder\<close> with a name whose entry of the same kind already exists under the parent
  throw no error and leave the disk as it was, so that no duplicate is created; a later scan
  of the parent shows exactly one entry of that name when the name does not start with a dot,
  and none when it does. When the entry that exists is of the other kind, the call is rejected
  with a type mismatch and nothing changes. \<^verbatim>\<open>createFile\<close> works on the name with the
  suffix \<^verbatim>\<open>.excalidraw\<close> appended when absent: when that name is valid and has no entry,
  an empty file of that name is added to the parent's entries, and when it is not valid the
  call is rejected.
\<close>

theorem create_existing_entry:
  assumes "resolveDir (disk s) (hpath parentHandle) = Some es"
    and "wellFormedDir es"
    and "withinRoot s parentHandle"
  shows "(findEntry (fileName name) es = Some (FileEntry (fileName name) c) \<longrightarrow>
            fst (createFile lc slot parentHandle name s) = None \<and>
            disk (snd (createFile lc slot parentHandle name s)) = disk s \<and>
            (\<exists>nodes.
               scanDirectory lc (disk (snd (createFile lc slot parentHandle name s)))
                 parentHandle path = Inr nodes \<and>
               length (filter (\<lambda>n. node_name n = fileName name) nodes)
                 = (if startsWith (fileName name) ''.'' then 0 else 1))) \<and>
         (findEntry name es = Some (DirEntry name sub) \<longrightarrow>
            fst (createFolder lc slot parentHandle name s) = None \<and>
            disk (snd (createFolder lc slot parentHandle name s)) = disk s \<and>
            (\<exists>nodes.
               scanDirectory lc (disk (snd (createFolder lc slot parentHandle name s)))
                 parentHandle path = Inr nodes \<and>
               length (filter (\<lambda>n. node_name n = name) nodes)
                 = (if startsWith name ''.'' then 0 else 1))) \<and>
         (findEntry (fileName name) es = Some (DirEntry (fileName name) sub) \<longrightarrow>
            createFile lc slot parentHandle name s = (Some TypeMismatchError, s)) \<and>
         (findEntry name es = Some (FileEntry name c) \<longrightarrow>
            createFolder lc slot parentHandle name s = (Some TypeMismatchError, s)) \<and>
         fileName name = (if endsWith name ''.excalidraw'' then name else name @ ''.excalidraw'') \<and>
         (findEntry (fileName name) es = None \<and> validName (fileName name) \<longrightarrow>
            fst (createFile lc slot parentHandle name s) = None \<and>
            (\<exists>es'.
               resolveDir (disk (snd (createFile lc slot parentHandle name s))) (hpath parentHandle)
                 = Some es' \<and>
               mset es' = add_mset (FileEntry (fileName name) []) (mset es) \<and>
               findEntry (fileName name) es' = Some (FileEntry (fileName name) []))) \<and>
         (\<not> validName (fileName name) \<longrightarrow>
            createFile lc slot parentHandle name s = (Some TypeError, s))"
proof (intro conjI impI)
  have rr: "rootReadable s"
    using assms(3,1) by (rule withinRoot_readable) simp_all
  have dn: "distinct (map entryName es)"
    using assms(2) by (simp add: wellFormedDir_def)
  have vn: "\<And>n e. findEntry n es = Some e \<Longrightarrow> validName n"
  proof -
    fix n e assume f: "findEntry n es = Some e"
    from findEntry_member [OF f] assms(2) have "validName (entryName e)"
      by (simp add: wellFormedDir_def list_all_iff)
    with findEntry_name [OF f] show "validName n" by simp
  qed
  {
    assume f: "findEntry (fileName name) es = Some (FileEntry (fileName name) c)"
    then have "getFileHandleIn slot (fileName name) es = Inr es"
      by (simp add: getFileHandleIn_def)
    from modifyDir_unchanged [where f = "getFileHandleIn slot (fileName name)", OF assms(1) this]
    have cf: "createFile lc slot parentHandle name s = refreshDirectory lc s"
      by (simp add: createFile_def getFileHandle_def vn [OF f])
    show "fst (createFile lc slot parentHandle name s) = None"
      by (simp add: cf refreshDirectory_readable [OF rr])
    show dk: "disk (snd (createFile lc slot parentHandle name s)) = disk s"
      by (simp add: cf refreshDirectory_keeps)
    have "kept (FileEntry (fileName name) c) = (\<not> startsWith (fileName name) ''.'')"
      by (simp add: kept_def endsWith_fileName)
    with scanned_name_count [OF dn f, of lc "hpath parentHandle" path]
    show "\<exists>nodes.
            scanDirectory lc (disk (snd (createFile lc slot parentHandle name s)))
              parentHandle path = Inr nodes \<and>
            length (filter (\<lambda>n. node_name n = fileName name) nodes)
              = (if startsWith (fileName name) ''.'' then 0 else 1)"
      by (simp add: dk scanDirectory_def assms(1))
  }
  {
    assume f: "findEntry name es = Some (DirEntry name sub)"
    then have "getDirectoryHandleIn slot name es = Inr es"
      by (simp add: getDirectoryHandleIn_def)
    from modifyDir_unchanged [where f = "getDirectoryHandleIn slot name", OF assms(1) this]
    have cf: "createFolder lc slot parentHandle name s = refreshDirectory lc s"
      by (simp add: createFolder_def getDirectoryHandle_def vn [OF f])
    show "fst (createFolder lc slot parentHandle name s) = None"
      by (simp add: cf refreshDirectory_readable [OF rr])
    show dk: "disk (snd (createFolder lc slot parentHandle name s)) = disk s"
      by (simp add: cf refreshDirectory_keeps)
    have "kept (DirEntry name sub) = (\<not> startsWith name ''.'')"
      by (simp add: kept_def)
    with scanned_name_count [OF dn f, of lc "hpath parentHandle" path]
    show "\<exists>nodes.
            scanDirectory lc (disk (snd (createFolder lc slot parentHandle name s)))
              parentHandle path = Inr nodes \<and>
            length (filter (\<lambda>n. node_name n = name) nodes)
              = (if startsWith name ''.'' then 0 else 1)"
      by (simp add: dk scanDirectory_def assms(1))
  }
  {
    assume f: "findEntry (fileName name) es = Some (DirEntry (fileName name) sub)"
    then have "getFileHandleIn slot (fileName name) es = Inl TypeMismatchError"
      by (simp add: getFileHandleIn_def)
    from modifyDir_fails [where f = "getFileHandleIn slot (fileName name)", OF assms(1) this]
    show "createFile lc slot parentHandle name s = (Some TypeMismatchError, s)"
      by (simp add: createFile_def getFileHandle_def vn [OF f])
  }
  {
    assume f: "findEntry name es = Some (FileEntry name c)"
    then have "getDirectoryHandleIn slot name es = Inl TypeMismatchError"
      by (simp add: getDirectoryHandleIn_def)
    from modifyDir_fails [where f = "getDirectoryHandleIn slot name", OF assms(1) this]
    show "createFolder lc slot parentHandle name s = (Some TypeMismatchError, s)"
      by (simp add: createFolder_def getDirectoryHandle_def vn [OF f])
  }
  show "fileName name = (if endsWith name ''.excalidraw'' then name else name @ ''.excalidraw'')"
    by (simp add: fileName_def)
  {
    assume a: "findEntry (fileName name) es = None \<and> validName (fileName name)"
    let ?es' = "take slot es @ FileEntry (fileName name) [] # drop slot es"
    from a have "getFileHandleIn slot (fileName name) es = Inr ?es'"
      by (simp add: getFileHandleIn_def)
    from modifyDir_succeeds [where f = "getFileHandleIn slot (fileName name)", OF assms(1) this]
    obtain d' where d': "getFileHandle (disk s) slot parentHandle (fileName name) = Inr d'"
      "resolveDir d' (hpath parentHandle) = Some ?es'"
      using a by (auto simp: getFileHandle_def)
    have "rootReadable (s\<lparr>disk := d'\<rparr>)"
      using assms(3) d'(2) by (rule withinRoot_readable) simp_all
    then show "fst (createFile lc slot parentHandle name s) = None"
      by (simp add: createFile_def d'(1) refreshDirectory_readable)
    have "resolveDir (disk (snd (createFile lc slot parentHandle name s))) (hpath parentHandle)
            = Some ?es'"
      by (simp add: createFile_def d' refreshDirectory_keeps)
    moreover have "mset ?es' = add_mset (FileEntry (fileName name) []) (mset es)"
      by (rule mset_inserted)
    moreover have "findEntry (fileName name) ?es' = Some (FileEntry (fileName name) [])"
      using a by (simp add: findEntry_inserted)
    ultimately show "\<exists>es'.
               resolveDir (disk (snd (createFile lc slot parentHandle name s))) (hpath parentHandle)
                 = Some es' \<and>
               mset es' = add_mset (FileEntry (fileName name) []) (mset es) \<and>
               findEntry (fileName name) es' = Some (FileEntry (fileName name) [])"
      by blast
  }
  {
    assume "\<not> validName (fileName name)"
    then show "createFile lc slot parentHandle name s = (Some TypeError, s)"
      by (simp add: createFile_def getFileHandle_def)
  }
qed

theorem create_existing_entry_witness:
  "resolveDir (disk exampleState) (hpath (Handle Directory [''work''])) =
     Some [FileEntry ''z.excalidraw'' ''not json'', DirEntry ''sub'' [],
           FileEntry ''a.excalidraw'' ''null''] \<and>
   wellFormedDir [FileEntry ''z.excalidraw'' ''not json'', DirEntry ''sub'' [],
           FileEntry ''a.excalidraw'' ''null''] \<and>
   withinRoot exampleState (Handle Directory [''work'']) \<and>
   fileName ''a'' = ''a.excalidraw'' \<and>
   fileName ''sketch'' = ''sketch.excalidraw'' \<and>
   fst (createFile compareCodeUnits 0 (Handle Directory [''work'']) ''a'' exampleState) = None \<and>
   disk (snd (createFile compareCodeUnits 0 (Handle Directory [''work'']) ''a'' exampleState))
     = disk exampleState \<and>
   fst (createFolder compareCodeUnits 0 (Handle Directory [''work'']) ''sub'' exampleState) = None \<and>
   disk (snd (createFolder compareCodeUnits 0 (Handle Directory [''work'']) ''sub'' exampleState))
     = disk exampleState \<and>
   createFolder compareCodeUnits 0 (Handle Directory [''work'']) ''a.excalidraw'' exampleState
     = (Some TypeMismatchError, exampleState) \<and>
   fst (createFile compareCodeUnits 0 (Handle Directory [''work'']) ''sketch'' exampleState) = None \<and>
   createFile compareCodeUnits 0 (Handle Directory [''work'']) ''a/b'' exampleState
     = (Some TypeError, exampleState)"
proof -
  let ?es = "[FileEntry ''z.excalidraw'' ''not json'', DirEntry ''sub'' [],
              FileEntry ''a.excalidraw'' ''null'']"
  let ?h = "Handle Directory [''work'']"
  have r: "resolveDir (disk exampleState) (hpath ?h) = Some ?es"
    by (simp add: exampleState_def exampleDisk_def)
  have d: "wellFormedDir ?es"
    by (simp add: wellFormedDir_def validName_def)
  have rr: "withinRoot exampleState ?h"
    by (simp add: withinRoot_def exampleState_def)
  have fa: "fileName ''a'' = ''a.excalidraw''"
    by (simp add: fileName_def endsWith_def)
  have fs: "fileName ''sketch'' = ''sketch.excalidraw''"
    by (simp add: fileName_def endsWith_def)
  have fb: "\<not> validName (fileName ''a/b'')"
    by (simp add: fileName_def endsWith_def validName_def)
  have f1: "findEntry (fileName ''a'') ?es = Some (FileEntry (fileName ''a'') ''null'')"
    by (simp add: fa)
  have f2: "findEntry ''sub'' ?es = Some (DirEntry ''sub'' [])"
    by simp
  have f3: "findEntry (fileName ''sketch'') ?es = None \<and> validName (fileName ''sketch'')"
    by (simp add: fs validName_def)
  have f4: "findEntry ''a.excalidraw'' ?es = Some (FileEntry ''a.excalidraw'' ''null'')"
    by simp
  note a = create_existing_entry [OF r d rr, where name = "''a''" and c = "''null''"
         and lc = compareCodeUnits and sub = "[]" and path = "''work''" and slot = 0]
  note b = create_existing_entry [OF r d rr, where name = "''sub''" and c = "[]"
         and lc = compareCodeUnits and sub = "[]" and path = "''work''" and slot = 0]
  note c = create_existing_entry [OF r d rr, where name = "''sketch''" and c = "[]"
         and lc = compareCodeUnits and sub = "[]" and path = "''work''" and slot = 0]
  note e = create_existing_entry [OF r d rr, where name = "''a.excalidraw''" and c = "''null''"
         and lc = compareCodeUnits and sub = "[]" and path = "''work''" and slot = 0]
  note g = create_existing_entry [OF r d rr, where name = "''a/b''" and c = "[]"
         and lc = compareCodeUnits and sub = "[]" and path = "''work''" and slot = 0]
  from a f1 have a': "fst (createFile compareCodeUnits 0 ?h ''a'' exampleState) = None"
    "disk (snd (createFile compareCodeUnits 0 ?h ''a'' exampleState)) = disk exampleState"
    by blast+
  from b f2 have b': "fst (createFolder compareCodeUnits 0 ?h ''sub'' exampleState) = None"
    "disk (snd (createFolder compareCodeUnits 0 ?h ''sub'' exampleState)) = disk exampleState"
    by blast+
  from c f3 have c': "fst (createFile compareCodeUnits 0 ?h ''sketch'' exampleState) = None"
    by blast
  from e f4 have e': "createFolder compareCodeUnits 0 ?h ''a.excalidraw'' exampleState
     = (Some TypeMismatchError, exampleState)"
    by blast
  from g fb have g': "createFile compareCodeUnits 0 ?h ''a/b'' exampleState
     = (Some TypeError, exampleState)"
    by blast
  from r d rr fa fs a' b' c' e' g' show ?thesis by blast
qed

text \<open>
  As stated, claim C9 fails on a hidden name and on an entry of the other kind. The folder
  \<^verbatim>\<open>.git\<close> and the file \<^verbatim>\<open>.h.excalidraw\<close> exist: \<^verbatim>\<open>createFolder\<close> and
  \<^verbatim>\<open>createFile\<close> throw nothing, and the scan that follows shows no entry of either name.
  The file \<^verbatim>\<open>notes.txt\<close> exists: \<^verbatim>\<open>createFolder\<close> with that name throws a type
  mismatch; so does \<^verbatim>\<open>createFile\<close> with the name \<^verbatim>\<open>d\<close> where a folder
  \<^verbatim>\<open>d.excalidraw\<close> exists.
\<close>

theorem create_hidden_or_other_kind_counterexample:
  "fst (createFolder compareCodeUnits 0 (Handle Directory []) ''.git'' exampleState) = None \<and>
   scanDirectory compareCodeUnits
     (disk (snd (createFolder compareCodeUnits 0 (Handle Directory []) ''.git'' exampleState)))
     (Handle Directory []) [] = Inr (scanEntries compareCodeUnits [] [] exampleDisk) \<and>
   filter (\<lambda>n. node_name n = ''.git'') (scanEntries compareCodeUnits [] [] exampleDisk) = [] \<and>
   fst (createFile compareCodeUnits 0 (Handle Directory []) ''.h'' exampleState) = None \<and>
   scanDirectory compareCodeUnits
     (disk (snd (createFile compareCodeUnits 0 (Handle Directory []) ''.h'' exampleState)))
     (Handle Directory []) [] = Inr (scanEntries compareCodeUnits [] [] exampleDisk) \<and>
   filter (\<lambda>n. node_name n = ''.h.excalidraw'') (scanEntries compareCodeUnits [] [] exampleDisk)
     = [] \<and>
   createFolder compareCodeUnits 0 (Handle Directory []) ''notes.txt'' exampleState
     = (Some TypeMismatchError, exampleState) \<and>
   createFile compareCodeUnits 0 (Handle Directory []) ''d'' folderNamedLikeFile
     = (Some TypeMismatchError, folderNamedLikeFile)"
  by code_simp

section \<open>Deleting an entry\<close>

text \<open>
  Claim C2 (amended). \<^verbatim>\<open>deleteEntry\<close> removes the named entry when it is a file or an empty
  directory, and then throws nothing when the parent is at or below the open root. When the
  entry is a directory with descendants the removal, which is not recursive, is rejected: the
  error is thrown and nothing is removed or changed.
\<close>

theorem deleteEntry_not_recursive:
  assumes "resolveDir (disk s) (hpath parentHandle) = Some es"
  shows "(findEntry name es = Some (DirEntry name (x # sub)) \<longrightarrow>
            deleteEntry lc parentHandle name s = (Some InvalidModificationError, s)) \<and>
         (findEntry name es = Some (FileEntry name c) \<or> findEntry name es = Some (DirEntry name [])
            \<longrightarrow>
            resolveDir (disk (snd (deleteEntry lc parentHandle name s))) (hpath parentHandle)
              = Some (dropEntry name es) \<and>
            (distinct (map entryName es) \<longrightarrow> findEntry name (dropEntry name es) = None) \<and>
            (withinRoot s parentHandle \<longrightarrow> fst (deleteEntry lc parentHandle name s) = None))"
proof (intro conjI impI)
  assume "findEntry name es = Some (DirEntry name (x # sub))"
  then have "removeEntryIn name False es = Inl InvalidModificationError"
    by (simp add: removeEntryIn_def)
  from modifyDir_fails [where f = "removeEntryIn name False", OF assms this]
  show "deleteEntry lc parentHandle name s = (Some InvalidModificationError, s)"
    by (simp add: deleteEntry_def removeEntry_def)
next
  assume "findEntry name es = Some (FileEntry name c) \<or> findEntry name es = Some (DirEntry name [])"
  then have "removeEntryIn name False es = Inr (dropEntry name es)"
    by (auto simp: removeEntryIn_def)
  from modifyDir_succeeds [where f = "removeEntryIn name False", OF assms this] obtain d' where
    d': "removeEntry (disk s) parentHandle name False = Inr d'"
    "resolveDir d' (hpath parentHandle) = Some (dropEntry name es)"
    by (auto simp: removeEntry_def)
  then show "resolveDir (disk (snd (deleteEntry lc parentHandle name s))) (hpath parentHandle)
              = Some (dropEntry name es)"
    by (simp add: deleteEntry_def Let_def refreshDirectory_keeps split: option.splits)
  {
    assume w: "withinRoot s parentHandle"
    have "rootReadable (s\<lparr>disk := d'\<rparr>)"
      "rootReadable (s\<lparr>disk := d', selectedFile := None\<rparr>)"
      using w d'(2) by (rule withinRoot_readable, simp, simp)+
    then show "fst (deleteEntry lc parentHandle name s) = None"
      by (simp add: deleteEntry_def Let_def d'(1) refreshDirectory_readable split: option.splits)
  }
next
  assume "distinct (map entryName es)"
  then show "findEntry name (dropEntry name es) = None"
    by (rule findEntry_dropEntry)
qed

theorem deleteEntry_not_recursive_witness:
  "resolveDir (disk exampleState) (hpath (Handle Directory [''work''])) =
     Some [FileEntry ''z.excalidraw'' ''not json'', DirEntry ''sub'' [],
           FileEntry ''a.excalidraw'' ''null''] \<and>
   resolveDir
     (disk (snd (deleteEntry compareCodeUnits (Handle Directory [''work'']) ''sub'' exampleState)))
     [''work'']
     = Some [FileEntry ''z.excalidraw'' ''not json'', FileEntry ''a.excalidraw'' ''null''] \<and>
   fst (deleteEntry compareCodeUnits (Handle Directory [''work'']) ''sub'' exampleState) = None \<and>
   resolveDir (disk exampleState) (hpath (Handle Directory [])) = Some exampleDisk \<and>
   deleteEntry compareCodeUnits (Handle Directory []) ''old'' exampleState
     = (Some InvalidModificationError, exampleState)"
proof -
  have r: "resolveDir (disk exampleState) (hpath (Handle Directory [''work''])) =
     Some [FileEntry ''z.excalidraw'' ''not json'', DirEntry ''sub'' [],
           FileEntry ''a.excalidraw'' ''null'']"
    by (simp add: exampleState_def exampleDisk_def)
  have r0: "resolveDir (disk exampleState) (hpath (Handle Directory [])) = Some exampleDisk"
    by (simp add: exampleState_def)
  have f0: "findEntry ''old'' exampleDisk = Some (DirEntry ''old'' [FileEntry ''a.excalidraw'' []])"
    by (simp add: exampleDisk_def)
  have w: "withinRoot exampleState (Handle Directory [''work''])"
    by (simp add: withinRoot_def exampleState_def)
  from deleteEntry_not_recursive [OF r, where name = "''sub''" and lc = compareCodeUnits
         and c = "[]" and x = "FileEntry [] []" and sub = "[]"]
       deleteEntry_not_recursive [OF r0, where name = "''old''" and lc = compareCodeUnits
         and c = "[]" and x = "FileEntry ''a.excalidraw'' []" and sub = "[]"]
       r r0 f0 w
  show ?thesis by simp
qed

text \<open>
  As stated, claim C2 fails on a directory with descendants: deleting \<^verbatim>\<open>work\<close>, which holds
  two files and a folder, throws the platform's error and leaves everything in place.
\<close>

theorem deleteEntry_directory_with_descendants_counterexample:
  "deleteEntry compareCodeUnits (Handle Directory []) ''work'' exampleState
     = (Some InvalidModificationError, exampleState)"
  by (simp add: deleteEntry_def removeEntry_def removeEntryIn_def exampleState_def exampleDisk_def)

text \<open>
  Claim C10. \<^verbatim>\<open>deleteEntry\<close> is atomic on failure: when the underlying \<^verbatim>\<open>removeEntry\<close>
  fails, the error is thrown to the caller, and the selection, the tree snapshot and the
  disk are exactly as before the call; clearing the selection and refreshing come only after
  a removal that succeeded.
\<close>

theorem deleteEntry_failure_atomic:
  "removeEntry (disk s) parentHandle name False = Inl err \<Longrightarrow>
   deleteEntry lc parentHandle name s = (Some err, s)"
  by (simp add: deleteEntry_def)

theorem deleteEntry_failure_atomic_witness:
  "removeEntry (disk exampleState) (Handle Directory [''work'']) ''q.excalidraw'' False
     = Inl NotFoundError \<and>
   deleteEntry compareCodeUnits (Handle Directory [''work'']) ''q.excalidraw'' exampleState
     = (Some NotFoundError, exampleState)"
proof -
  have h: "removeEntry (disk exampleState) (Handle Directory [''work'']) ''q.excalidraw'' False
             = Inl NotFoundError"
    by (simp add: exampleState_def exampleDisk_def removeEntry_def removeEntryIn_def)
  from deleteEntry_failure_atomic [OF h] h show ?thesis by simp
qed

text \<open>
  Claim C8. After a \<^verbatim>\<open>deleteEntry\<close> that succeeded, the selection is cleared exactly when
  the name of the node selected before equals the deleted name; the match is by name alone,
  whatever the folder. In the example the selected file is \<^verbatim>\<open>work/a.excalidraw\<close> and the
  file deleted is \<^verbatim>\<open>old/a.excalidraw\<close>.
\<close>

theorem deleteEntry_clears_selection_by_name:
  "deleteEntry lc parentHandle name s = (None, s') \<Longrightarrow>
   selectedFile s' =
     (case selectedFile s of
        None \<Rightarrow> None
      | Some f \<Rightarrow> if node_name f = name then None else Some f)"
  by (auto simp: deleteEntry_def refreshDirectory_def Let_def
      split: sum.splits option.splits if_splits)

theorem deleteEntry_clears_selection_by_name_witness:
  "selectedFile exampleState = Some exampleNode \<and>
   node_id exampleNode = ''work/a.excalidraw'' \<and>
   fst (deleteEntry compareCodeUnits (Handle Directory [''old'']) ''a.excalidraw'' exampleState)
     = None \<and>
   selectedFile
     (snd (deleteEntry compareCodeUnits (Handle Directory [''old'']) ''a.excalidraw'' exampleState))
     = None"
proof -
  have ok:
    "fst (deleteEntry compareCodeUnits (Handle Directory [''old'']) ''a.excalidraw'' exampleState)
       = None"
    by code_simp
  then have
    "deleteEntry compareCodeUnits (Handle Directory [''old'']) ''a.excalidraw'' exampleState
       = (None,
          snd (deleteEntry compareCodeUnits (Handle Directory [''old'']) ''a.excalidraw''
                 exampleState))"
    by (simp add: prod_eq_iff)
  from deleteEntry_clears_selection_by_name [OF this] ok show ?thesis
    by (simp add: exampleState_def exampleNode_def)
qed

section \<open>Moving a file to the folder it is in\<close>




section \<open>Loading and saving in the editor\<close>

text \<open>
  Claim C6 (amended). When a file is selected whose content is read but does not parse
  (\<^verbatim>\<open>JSON.parse\<close> throws, or gives \<^verbatim>\<open>null\<close>, whose properties cannot be read), the editor
  loads the empty document: no elements, no files, a white background, font family 2 and
  roughness 0; and no error state is set. Content that parses to any other value is not
  checked against the shape of a document: its \<^verbatim>\<open>elements\<close> and \<^verbatim>\<open>files\<close> are loaded as
  they are when present and truthy, and are empty otherwise; no error state is set either.
\<close>

theorem unparsable_content_loads_empty_document:
  assumes "node_kind f = File"
    and "readFileContent (disk (fs e)) (node_handle f) = Inr content"
    and "\<not> (sameObject \<and> selectedFile (fs e) = Some f)"
  shows "(parse content = None \<or> parse content = Some JNull \<longrightarrow>
            initialData (selectFileCall parse sameObject (Some f) e) =
              Some \<lparr>elements = JArr [],
                    appState = [''viewBackgroundColor'' \<mapsto> JStr ''#ffffff'',
                                ''currentItemFontFamily'' \<mapsto> JNum 2,
                                ''currentItemRoughness'' \<mapsto> JNum 0],
                    files = JObj []\<rparr> \<and>
            error (selectFileCall parse sameObject (Some f) e) = None \<and>
            isLoading (selectFileCall parse sameObject (Some f) e) = False) \<and>
         (parse content = Some parsed \<and> parsed \<noteq> JNull \<longrightarrow>
            map_option elements (initialData (selectFileCall parse sameObject (Some f) e)) =
              Some (orElse (getProp parsed ''elements'') (JArr [])) \<and>
            map_option files (initialData (selectFileCall parse sameObject (Some f) e)) =
              Some (orElse (getProp parsed ''files'') (JObj [])) \<and>
            error (selectFileCall parse sameObject (Some f) e) = None \<and>
            isLoading (selectFileCall parse sameObject (Some f) e) = False)"
proof -
  have c: "selectFileCall parse sameObject (Some f) e = selectionChange parse (Some f) e"
    using assms(3) by (auto simp: selectFileCall_def)
  show ?thesis
    using assms(1,2)
    by (auto simp: c selectionChange_Some loadFile_def emptyDocument_def fromParsed_def Let_def)
qed

theorem unparsable_content_loads_empty_document_witness:
  "node_kind otherNode = File \<and>
   readFileContent (disk (fs exampleEditor)) (node_handle otherNode) = Inr ''not json'' \<and>
   selectedFile (fs exampleEditor) = Some exampleNode \<and>
   exampleParse ''not json'' = None \<and>
   initialData (selectFileCall exampleParse False (Some otherNode) exampleEditor) =
     Some \<lparr>elements = JArr [],
           appState = [''viewBackgroundColor'' \<mapsto> JStr ''#ffffff'',
                       ''currentItemFontFamily'' \<mapsto> JNum 2,
                       ''currentItemRoughness'' \<mapsto> JNum 0],
           files = JObj []\<rparr> \<and>
   error (selectFileCall exampleParse False (Some otherNode) exampleEditor) = None"
proof -
  have k: "node_kind otherNode = File" by (simp add: otherNode_def)
  have r: "readFileContent (disk (fs exampleEditor)) (node_handle otherNode) = Inr ''not json''"
    by (simp add: readFileContent_def exampleEditor_def exampleState_def exampleDisk_def
        otherNode_def)
  have s: "selectedFile (fs exampleEditor) = Some exampleNode"
    by (simp add: exampleEditor_def exampleState_def)
  have n: "\<not> (False \<and> selectedFile (fs exampleEditor) = Some otherNode)" by simp
  have p: "exampleParse ''not json'' = None" by (simp add: exampleParse_def wrongShapeText_def)
  note a = unparsable_content_loads_empty_document
    [where parse = exampleParse and parsed = JNull, OF k r n]
  from a p have "initialData (selectFileCall exampleParse False (Some otherNode) exampleEditor) =
     Some \<lparr>elements = JArr [],
           appState = [''viewBackgroundColor'' \<mapsto> JStr ''#ffffff'',
                       ''currentItemFontFamily'' \<mapsto> JNum 2,
                       ''currentItemRoughness'' \<mapsto> JNum 0],
           files = JObj []\<rparr>"
    "error (selectFileCall exampleParse False (Some otherNode) exampleEditor) = None"
    by blast+
  with k r s p show ?thesis by blast
qed

text \<open>
  As stated, claim C6 fails on content that is JSON but not a document: the text of an object
  whose \<^verbatim>\<open>elements\<close> is the number 7 is loaded with that number as its elements, not as
  the empty document.
\<close>

theorem wrong_shape_content_counterexample:
  "readFileContent (disk (fs shapeEditor)) (node_handle shapeNode) = Inr wrongShapeText \<and>
   exampleParse wrongShapeText = Some (JObj [(''elements'', JNum 7)]) \<and>
   map_option elements (initialData (selectFileCall exampleParse False (Some shapeNode) shapeEditor))
     = Some (JNum 7) \<and>
   error (selectFileCall exampleParse False (Some shapeNode) shapeEditor) = None"
  by (simp add: selectFileCall_def selectionChange_Some loadFile_def fromParsed_def Let_def
      readFileContent_def shapeEditor_def shapeNode_def exampleParse_def wrongShapeText_def
      orElse_def)




text \<open>
  Claim C3. With a file selected and no save pending, a run of one or more change events, each
  less than one second after the one before, leads to exactly one save: none during the run,
  when neither a call of \<^verbatim>\<open>saveFileContent\<close> is made nor the disk changes; one when a
  second has passed after the last event, with the serialised elements, appState and files of
  the last event; and none after. The selected file being on the disk, that save replaces its
  content, which then reads back as the last event's state, and the disk is what this one
  write makes of the disk before the run.
\<close>

theorem debounce_collapses_to_last_change:
  assumes "selectedFile (fs e) = Some f"
    and "saveTimeoutRef e = None"
    and "evs \<noteq> []"
    and "\<forall>ev \<in> set (tl evs). fst ev < 1000"
    and "last evs = (dt, els, app, fls)"
    and "1000 \<le> w"
    and "readFileContent (disk (fs e)) (node_handle f) = Inr old"
    and "content = stringify (JObj [(''elements'', els), (''appState'', app), (''files'', fls)])"
  shows "(\<forall>k \<le> length evs.
            saveCalls (changeEvents stringify (take k evs) e) = saveCalls e \<and>
            disk (fs (changeEvents stringify (take k evs) e)) = disk (fs e)) \<and>
         saveCalls (advance stringify w (changeEvents stringify evs e)) =
           saveCalls e @ [(node_handle f, content)] \<and>
         saveFileContent (disk (fs e)) (node_handle f) content =
           Inr (disk (fs (advance stringify w (changeEvents stringify evs e)))) \<and>
         readFileContent (disk (fs (advance stringify w (changeEvents stringify evs e))))
           (node_handle f) = Inr content \<and>
         saveCalls (advance stringify w' (advance stringify w (changeEvents stringify evs e))) =
           saveCalls e @ [(node_handle f, content)] \<and>
         disk (fs (advance stringify w' (advance stringify w (changeEvents stringify evs e)))) =
           disk (fs (advance stringify w (changeEvents stringify evs e)))"
proof -
  have pre: "\<forall>k \<le> length evs.
            saveCalls (changeEvents stringify (take k evs) e) = saveCalls e \<and>
            disk (fs (changeEvents stringify (take k evs) e)) = disk (fs e)"
  proof (intro allI impI)
    fix k
    have "set (tl (take k evs)) \<subseteq> set (tl evs)"
      by (metis set_take_subset tl_take)
    with assms(4) have "\<forall>ev \<in> set (tl (take k evs)). fst ev < 1000" by blast
    from burst_from_idle [OF assms(1,2) this]
    show "saveCalls (changeEvents stringify (take k evs) e) = saveCalls e \<and>
          disk (fs (changeEvents stringify (take k evs) e)) = disk (fs e)"
      by simp
  qed
  define e' where "e' = changeEvents stringify evs e"
  from burst_from_idle [OF assms(1,2,4)] assms(3,5)
  have b: "saveCalls e' = saveCalls e" "fs e' = fs e"
    "saveTimeoutRef e' = Some (now e' + 1000, f, els, app, fls)"
    by (simp_all add: e'_def)
  have a: "advance stringify w e' =
             fire stringify (f, els, app, fls) (e'\<lparr>now := now e' + w, saveTimeoutRef := None\<rparr>)"
    using b(3) assms(6) by (simp add: advance_def Let_def)
  from save_then_read [OF assms(7), of content] obtain d' where
    d': "saveFileContent (disk (fs e)) (node_handle f) content = Inr d'"
    "readFileContent d' (node_handle f) = Inr content"
    by blast
  have dk: "disk (fs (advance stringify w e')) = d'"
    using d'(1) by (simp add: a fire_def Let_def b(2) assms(8))
  have one: "saveCalls (advance stringify w e') = saveCalls e @ [(node_handle f, content)]"
    by (simp add: a saveCalls_fire b(1) assms(8))
  have idle: "saveTimeoutRef (advance stringify w e') = None"
    by (simp add: a saveTimeoutRef_fire)
  have later: "advance stringify w' (advance stringify w e')
                 = (advance stringify w e')\<lparr>now := now (advance stringify w e') + w'\<rparr>"
    using idle by (rule advance_idle)
  have two: "saveCalls (advance stringify w' (advance stringify w e'))
               = saveCalls e @ [(node_handle f, content)]"
    "disk (fs (advance stringify w' (advance stringify w e'))) = disk (fs (advance stringify w e'))"
    by (simp_all add: later one)
  from pre one d' dk two show ?thesis
    unfolding e'_def by simp
qed

theorem debounce_collapses_to_last_change_witness:
  "selectedFile (fs exampleEditor) = Some exampleNode \<and>
   saveTimeoutRef exampleEditor = None \<and>
   readFileContent (disk (fs exampleEditor)) (node_handle exampleNode) = Inr ''null'' \<and>
   saveCalls
     (advance exampleStringify 1000
        (changeEvents exampleStringify
           [(5000, JArr [JStr ''v1''], JObj [], JObj []),
            (999, JArr [JStr ''v2''], JObj [], JObj []),
            (200, JArr [JStr ''v3''], JObj [], JObj [])] exampleEditor))
     = [(node_handle exampleNode, ''v3'')] \<and>
   readFileContent
     (disk (fs (advance exampleStringify 1000
        (changeEvents exampleStringify
           [(5000, JArr [JStr ''v1''], JObj [], JObj []),
            (999, JArr [JStr ''v2''], JObj [], JObj []),
            (200, JArr [JStr ''v3''], JObj [], JObj [])] exampleEditor))))
     (node_handle exampleNode) = Inr ''v3''"
proof -
  have s: "selectedFile (fs exampleEditor) = Some exampleNode"
    and t: "saveTimeoutRef exampleEditor = None"
    and c: "saveCalls exampleEditor = []"
    by (simp_all add: exampleEditor_def exampleState_def)
  have r: "readFileContent (disk (fs exampleEditor)) (node_handle exampleNode) = Inr ''null''"
    by (simp add: readFileContent_def exampleEditor_def exampleState_def exampleDisk_def
        exampleNode_def)
  have n: "[(5000, JArr [JStr ''v1''], JObj [], JObj []),
            (999, JArr [JStr ''v2''], JObj [], JObj []),
            (200::nat, JArr [JStr ''v3''], JObj [], JObj [])] \<noteq> []"
    by simp
  have g: "\<forall>ev \<in> set (tl [(5000, JArr [JStr ''v1''], JObj [], JObj []),
            (999, JArr [JStr ''v2''], JObj [], JObj []),
            (200::nat, JArr [JStr ''v3''], JObj [], JObj [])]). fst ev < 1000"
    by simp
  have l: "last [(5000, JArr [JStr ''v1''], JObj [], JObj []),
            (999, JArr [JStr ''v2''], JObj [], JObj []),
            (200::nat, JArr [JStr ''v3''], JObj [], JObj [])]
             = (200, JArr [JStr ''v3''], JObj [], JObj [])"
    by simp
  have w: "(1000::nat) \<le> 1000" by simp
  have x: "''v3'' = exampleStringify
             (JObj [(''elements'', JArr [JStr ''v3'']), (''appState'', JObj []), (''files'', JObj [])])"
    by simp
  note a = debounce_collapses_to_last_change
    [where stringify = exampleStringify and w' = 0, OF s t n g l w r x]
  from a have
    "saveCalls
     (advance exampleStringify 1000
        (changeEvents exampleStringify
           [(5000, JArr [JStr ''v1''], JObj [], JObj []),
            (999, JArr [JStr ''v2''], JObj [], JObj []),
            (200, JArr [JStr ''v3''], JObj [], JObj [])] exampleEditor))
     = saveCalls exampleEditor @ [(node_handle exampleNode, ''v3'')]"
    by blast
  moreover from a have
    "readFileContent
     (disk (fs (advance exampleStringify 1000
        (changeEvents exampleStringify
           [(5000, JArr [JStr ''v1''], JObj [], JObj []),
            (999, JArr [JStr ''v2''], JObj [], JObj []),
            (200, JArr [JStr ''v3''], JObj [], JObj [])] exampleEditor))))
     (node_handle exampleNode) = Inr ''v3''"
    by blast
  ultimately show ?thesis using s t r c by simp
qed

end
